theory Spec2Isabelle
  imports Main "HOL-Library.List_Lexorder"
begin

section \<open>Python values\<close>

text \<open>
  A Python \<open>str\<close> is a sequence of Unicode code points, so a string is a list of code
  point numbers. \<open>ascii\<close> reads an ASCII literal; the Hebrew literals of the source are
  written out as code points below.
\<close>

type_synonym ustring = "nat list"

definition ascii :: "string \<Rightarrow> ustring" where
  "ascii s = map of_char s"

text \<open>
  The values a distance label can take: \<open>None\<close>, the float \<open>nan\<close> (what \<open>np.nan\<close> is,
  and what the normalizer returns for "no category"), or a string.
\<close>

datatype pyval = PyNone | PyNaN | PyStr ustring

fun isna :: "pyval \<Rightarrow> bool" where
  "isna PyNone = True"
| "isna PyNaN = True"
| "isna (PyStr s) = False"

fun py_str :: "pyval \<Rightarrow> ustring" where
  "py_str PyNone = ascii ''None''"
| "py_str PyNaN = ascii ''nan''"
| "py_str (PyStr s) = s"

text \<open>
  \<open>str.isspace\<close> for one code point: the characters \<open>str.strip()\<close> removes from both
  ends.
\<close>

definition isspace :: "nat \<Rightarrow> bool" where
  "isspace c \<longleftrightarrow>
     (9 \<le> c \<and> c \<le> 13) \<or> (28 \<le> c \<and> c \<le> 32) \<or> c = 133 \<or> c = 160 \<or> c = 5760 \<or>
     (8192 \<le> c \<and> c \<le> 8202) \<or> c = 8232 \<or> c = 8233 \<or> c = 8239 \<or> c = 8287 \<or>
     c = 12288"

definition strip :: "ustring \<Rightarrow> ustring" where
  "strip s = rev (dropWhile isspace (rev (dropWhile isspace s)))"

text \<open>\<open>sub in s\<close> for strings: \<open>sub\<close> occurs as a contiguous run of \<open>s\<close>.\<close>

fun startswith :: "'a list \<Rightarrow> 'a list \<Rightarrow> bool" where
  "startswith s [] = True"
| "startswith [] (p # ps) = False"
| "startswith (x # xs) (p # ps) = (x = p \<and> startswith xs ps)"

fun contains :: "'a list \<Rightarrow> 'a list \<Rightarrow> bool" where
  "contains [] sub = (sub = [])"
| "contains (x # xs) sub = (startswith (x # xs) sub \<or> contains xs sub)"

section \<open>Category normalizer\<close>

text \<open>
  The alias lists of \<open>best_race_results_per_participant.normalize_distance\<close>. The Hebrew
  entries, in code points: \<open>10 QOF " MEM\<close>, \<open>10QOF " MEM\<close>, \<open>10 QOF MEM\<close> (kilometres);
  \<open>21 QOF " MEM\<close>; and "half marathon" (HET TSADI YOD, MEM RESH TAV VAV FINAL-NUN) with
  a space, followed by "competitive", with a hyphen and with an underscore.
\<close>

definition hatsi :: ustring where
  "hatsi = [1495, 1510, 1497]"

definition maraton :: ustring where
  "maraton = [1502, 1512, 1514, 1493, 1503]"

definition aliases_10K :: "ustring list" where
  "aliases_10K =
     [ascii ''10 '' @ [1511, 34, 1502], ascii ''10'' @ [1511, 34, 1502], ascii ''9800'',
      ascii ''10000'', ascii ''10 '' @ [1511, 1502]]"

definition aliases_21K :: "ustring list" where
  "aliases_21K =
     [ascii ''21097'', ascii ''21 '' @ [1511, 34, 1502], ascii ''21000'', ascii ''21K'',
      ascii ''21k'', hatsi @ [32] @ maraton,
      hatsi @ [32] @ maraton @ [32, 1514, 1495, 1512, 1493, 1514, 1497],
      hatsi @ [45] @ maraton, hatsi @ [95] @ maraton]"

definition aliases_42K :: "ustring list" where
  "aliases_42K = [ascii ''42195'', ascii ''42K'', ascii ''42k'']"

definition normalize_distance :: "pyval \<Rightarrow> pyval" where
  "normalize_distance v =
     (if isna v \<or> strip (py_str v) = [] then PyNaN
      else let s = strip (py_str v) in
        if s \<in> set aliases_10K then PyStr (ascii ''10K'')
        else if s \<in> set aliases_21K then PyStr (ascii ''21K'')
        else if s \<in> set aliases_42K then PyStr (ascii ''42K'')
        else if contains s (ascii ''15'') then PyStr (ascii ''15K'')
        else if contains s (ascii ''5'') \<and> \<not> contains s (ascii ''2'') then PyStr (ascii ''5K'')
        else PyNaN)"

text \<open>
  The copy of the normalizer nested in \<open>fetch_and_process_results\<close> of the single-person
  module: the same rules over a shorter 21K list (no Hebrew half-marathon names).
\<close>

definition sp_aliases_21K :: "ustring list" where
  "sp_aliases_21K = [ascii ''21097'', ascii ''21000'', ascii ''21K'', ascii ''21k'']"

definition sp_normalize_distance :: "pyval \<Rightarrow> pyval" where
  "sp_normalize_distance v =
     (if isna v \<or> strip (py_str v) = [] then PyNaN
      else let s = strip (py_str v) in
        if s \<in> set aliases_10K then PyStr (ascii ''10K'')
        else if s \<in> set sp_aliases_21K then PyStr (ascii ''21K'')
        else if s \<in> set aliases_42K then PyStr (ascii ''42K'')
        else if contains s (ascii ''15'') then PyStr (ascii ''15K'')
        else if contains s (ascii ''5'') \<and> \<not> contains s (ascii ''2'') then PyStr (ascii ''5K'')
        else PyNaN)"

text \<open>The closed set of results: the five category labels and \<open>nan\<close> for "unknown".\<close>

definition categories :: "pyval set" where
  "categories =
     {PyStr (ascii ''42K''), PyStr (ascii ''21K''), PyStr (ascii ''15K''),
      PyStr (ascii ''10K''), PyStr (ascii ''5K''), PyNaN}"

section \<open>Result tables\<close>

text \<open>
  A scraped row maps column names to cell text (every cell comes from
  \<open>get_text(strip=True)\<close>, so it is a string). The column names of the source, in code
  points: personal time, result, race category, best time, first name, last name, note.
\<close>

type_synonym row = "ustring \<rightharpoonup> ustring"

definition col_personal_time :: ustring where
  "col_personal_time = [1494, 1502, 1503, 32, 1488, 1497, 1513, 1497]"

definition col_result :: ustring where
  "col_result = [1514, 1493, 1510, 1488, 1492]"

definition col_distance :: ustring where
  "col_distance = [1502, 1511, 1510, 1492]"

definition col_best_time :: ustring where
  "col_best_time = [1514, 1493, 1510, 1488, 1492, 32, 1502, 1497, 1496, 1489, 1497, 1514]"

definition col_first_name :: ustring where
  "col_first_name = [1513, 1501, 32, 1508, 1512, 1496, 1497]"

definition col_last_name :: ustring where
  "col_last_name = [1513, 1501, 32, 1502, 1513, 1508, 1495, 1492]"

definition col_note :: ustring where
  "col_note = [1492, 1506, 1512, 1492]"

definition best_result_marker :: ustring where
  "best_result_marker = ascii ''Best Result''"

text \<open>\<open>row.get(col, default)\<close>.\<close>

definition row_get :: "row \<Rightarrow> ustring \<Rightarrow> ustring \<Rightarrow> ustring" where
  "row_get r c d = (case r c of None \<Rightarrow> d | Some v \<Rightarrow> v)"

subsection \<open>Time resolver\<close>

definition null_times :: "ustring list" where
  "null_times = [ascii ''00:00:00'', ascii ''0'', [], ascii ''NaT'', ascii ''None'']"

text \<open>The loop of \<open>choose_best_time_string\<close> over the columns it is given.\<close>

fun first_valid_time :: "row \<Rightarrow> ustring list \<Rightarrow> ustring" where
  "first_valid_time r [] = []"
| "first_valid_time r (c # cs) =
     (let val = strip (row_get r c []) in
      if val \<notin> set null_times then val else first_valid_time r cs)"

definition choose_best_time_string :: "row \<Rightarrow> ustring" where
  "choose_best_time_string r = first_valid_time r [col_personal_time, col_result]"

text \<open>
  \<open>pd.to_timedelta\<close> belongs to pandas, not to this repository: it is the argument
  \<open>td\<close> of everything below, a function from text to a duration, with \<open>None\<close> for
  \<open>NaT\<close> (what \<open>errors="coerce"\<close> gives for text that does not parse). Durations are
  integers, in whatever unit the parser counts.

  \<open>parse_time\<close> of the single-person module: a missing column raises \<open>KeyError\<close> and
  unparseable text raises \<open>ValueError\<close>, both caught and turned into \<open>NaT\<close>.
\<close>

definition parse_time :: "(ustring \<Rightarrow> int option) \<Rightarrow> row \<Rightarrow> int option" where
  "parse_time td r =
     (case r col_personal_time of
        None \<Rightarrow> None
      | Some time_str \<Rightarrow>
          if time_str \<in> set [ascii ''00:00:00'', ascii ''0'', []]
          then (case r col_result of None \<Rightarrow> None | Some t \<Rightarrow> td t)
          else td time_str)"

subsection \<open>Data frames\<close>

text \<open>
  A row of a \<open>DataFrame\<close>: its index label, its text cells, and the two derived columns
  that are not text: \<open>normalized_distance\<close> (a label or \<open>nan\<close>) and \<open>race_time\<close>
  (a duration or \<open>NaT\<close>).
\<close>

record frame_row =
  label :: nat
  cells :: row
  normalized_distance :: pyval
  race_time :: "int option"

datatype error = RequestException | ValueError | KeyError | IndexError

text \<open>
  What the request for a participant's results page comes back with: a timeout, another
  request error, a page without a table, or a table. \<open>Table rows\<close> holds the table as
  the rows of the \<open>DataFrame\<close> the source builds from it (header names paired with the
  cells of every non-empty table row); the HTML parsing itself is left out.
\<close>

datatype lookup = Timeout | RequestFailed | NoTable | Table "row list"

text \<open>
  \<open>df[c]\<close> raises \<open>KeyError\<close> when the frame has no column \<open>c\<close>. All rows of a frame
  have the same columns, so the column is there when every row has it.
\<close>

definition has_column :: "ustring \<Rightarrow> row list \<Rightarrow> bool" where
  "has_column c rows = list_all (\<lambda>r. r c \<noteq> None) rows"

text \<open>
  \<open>Series.idxmin()\<close> over (label, value) pairs: the label of the first minimum among
  the values that are not \<open>NaT\<close>. When every value is \<open>NaT\<close> pandas raises
  \<open>ValueError\<close>, or (in the versions that return \<open>nan\<close> instead) the \<open>.loc\<close> that
  follows raises \<open>KeyError\<close>; the model has \<open>ValueError\<close> for both.
\<close>

fun first_min :: "nat \<times> int \<Rightarrow> (nat \<times> int) list \<Rightarrow> nat \<times> int" where
  "first_min b [] = b"
| "first_min b (c # cs) = first_min (if snd c < snd b then c else b) cs"

fun not_na :: "(nat \<times> int option) list \<Rightarrow> (nat \<times> int) list" where
  "not_na [] = []"
| "not_na ((i, None) # ps) = not_na ps"
| "not_na ((i, Some d) # ps) = (i, d) # not_na ps"

definition idxmin :: "(nat \<times> int option) list \<Rightarrow> error + nat" where
  "idxmin s = (case not_na s of [] \<Rightarrow> Inl ValueError | p # ps \<Rightarrow> Inr (fst (first_min p ps)))"

definition race_times :: "frame_row list \<Rightarrow> (nat \<times> int option) list" where
  "race_times df = map (\<lambda>r. (label r, race_time r)) df"

text \<open>\<open>df.loc[i]\<close>: the row labelled \<open>i\<close>, \<open>KeyError\<close> when there is none.\<close>

definition loc :: "frame_row list \<Rightarrow> nat \<Rightarrow> error + frame_row" where
  "loc df i = (case find (\<lambda>r. label r = i) df of None \<Rightarrow> Inl KeyError | Some r \<Rightarrow> Inr r)"

text \<open>Running a list of steps that may raise: the first error ends the run.\<close>

fun all_or_error :: "('e + 'a) list \<Rightarrow> 'e + 'a list" where
  "all_or_error [] = Inr []"
| "all_or_error (x # xs) =
     (case x of
        Inl e \<Rightarrow> Inl e
      | Inr a \<Rightarrow> (case all_or_error xs of Inl e \<Rightarrow> Inl e | Inr as \<Rightarrow> Inr (a # as)))"

section \<open>Best result of one participant in one category\<close>

text \<open>
  The frame \<open>fetch_best_result\<close> builds from the scraped rows: labels \<open>0, 1, ...\<close>, the
  normalized category, the chosen time text in its own column and its duration.
\<close>

definition build_frame :: "(ustring \<Rightarrow> int option) \<Rightarrow> row list \<Rightarrow> frame_row list" where
  "build_frame td rows =
     map (\<lambda>(i, r).
           \<lparr>label = i,
            cells = r(col_best_time \<mapsto> choose_best_time_string r),
            normalized_distance = normalize_distance (PyStr (row_get r col_distance [])),
            race_time = td (choose_best_time_string r)\<rparr>)
         (enumerate 0 rows)"

definition tag_best :: "ustring \<Rightarrow> ustring \<Rightarrow> frame_row \<Rightarrow> frame_row" where
  "tag_best first_name last_name best_row =
     best_row\<lparr>cells := (cells best_row)
       (col_first_name \<mapsto> first_name, col_last_name \<mapsto> last_name,
        col_note \<mapsto> best_result_marker)\<rparr>"

text \<open>
  \<open>fetch_best_result\<close>, from the answer to its request on. \<open>Inr None\<close> is the source's
  \<open>return None\<close>; \<open>Inl\<close> is an exception that leaves the function.
\<close>

definition fetch_best_result ::
  "(ustring \<Rightarrow> int option) \<Rightarrow> lookup \<Rightarrow> ustring \<Rightarrow> ustring \<Rightarrow> ustring \<Rightarrow> error + frame_row option"
where
  "fetch_best_result td page first_name last_name category =
     (case page of
        Timeout \<Rightarrow> Inr None
      | RequestFailed \<Rightarrow> Inr None
      | NoTable \<Rightarrow> Inr None
      | Table rows \<Rightarrow>
          if rows = [] then Inr None
          else if \<not> has_column col_distance rows then Inl KeyError
          else
            let df = build_frame td rows;
                df_cat = filter (\<lambda>r. normalized_distance r = PyStr category) df
            in if df_cat = [] then Inr None
               else (case idxmin (race_times df_cat) of
                       Inl e \<Rightarrow> Inl e
                     | Inr best_idx \<Rightarrow>
                         (case loc df_cat best_idx of
                            Inl e \<Rightarrow> Inl e
                          | Inr best_row \<Rightarrow> Inr (Some (tag_best first_name last_name best_row)))))"

section \<open>Best results across participants\<close>

text \<open>
  The loop of \<open>best_results_for_category\<close> over \<open>names_list\<close>; each name comes with the
  answer its request gets.
\<close>

fun collect_best ::
  "(ustring \<Rightarrow> int option) \<Rightarrow> ((ustring \<times> ustring) \<times> lookup) list \<Rightarrow> ustring \<Rightarrow> error + frame_row list"
where
  "collect_best td [] category = Inr []"
| "collect_best td (((first_name, last_name), page) # rest) category =
     (case fetch_best_result td page first_name last_name category of
        Inl e \<Rightarrow> Inl e
      | Inr None \<Rightarrow> collect_best td rest category
      | Inr (Some best_row) \<Rightarrow>
          (case collect_best td rest category of
             Inl e \<Rightarrow> Inl e
           | Inr best_results \<Rightarrow> Inr (best_row # best_results)))"

text \<open>
  \<open>sort_values(by="race_time", ascending=True)\<close>: durations ascending, \<open>NaT\<close> last.
  pandas' default sort fixes no order among equal durations; the insertion sort here
  keeps them in their order, and the theorems below use nothing about ties.
\<close>

definition duration_key :: "frame_row \<Rightarrow> int" where
  "duration_key r = (case race_time r of None \<Rightarrow> 0 | Some d \<Rightarrow> d)"

definition sort_by_race_time :: "frame_row list \<Rightarrow> frame_row list" where
  "sort_by_race_time df =
     sort_key duration_key (filter (\<lambda>r. race_time r \<noteq> None) df) @
     filter (\<lambda>r. race_time r = None) df"

definition reset_index :: "(ustring \<Rightarrow> int option) \<Rightarrow> frame_row list \<Rightarrow> frame_row list" where
  "reset_index td best_results =
     map (\<lambda>(i, r).
           r\<lparr>label := i,
             race_time := (case cells r col_best_time of None \<Rightarrow> None | Some t \<Rightarrow> td t)\<rparr>)
         (enumerate 0 best_results)"

definition best_results_for_category ::
  "(ustring \<Rightarrow> int option) \<Rightarrow> ((ustring \<times> ustring) \<times> lookup) list \<Rightarrow> ustring
     \<Rightarrow> error + frame_row list option"
where
  "best_results_for_category td names_list category =
     (case collect_best td names_list category of
        Inl e \<Rightarrow> Inl e
      | Inr best_results \<Rightarrow>
          if best_results = [] then Inr None
          else Inr (Some (sort_by_race_time (reset_index td best_results))))"

section \<open>Best results of a single person\<close>

definition sp_build_frame :: "(ustring \<Rightarrow> int option) \<Rightarrow> row list \<Rightarrow> frame_row list" where
  "sp_build_frame td rows =
     map (\<lambda>(i, r).
           \<lparr>label = i,
            cells = r,
            normalized_distance = sp_normalize_distance (PyStr (row_get r col_distance [])),
            race_time = parse_time td r\<rparr>)
         (enumerate 0 rows)"

definition df_for_best :: "frame_row list \<Rightarrow> frame_row list" where
  "df_for_best df =
     filter (\<lambda>r. \<not> isna (normalized_distance r) \<and>
                 normalized_distance r \<notin> set [PyStr (ascii ''30000''), PyStr (ascii ''7000'')])
            df"

text \<open>\<open>groupby\<close> drops \<open>nan\<close> keys and goes through the remaining keys in sorted order.\<close>

definition group_keys :: "frame_row list \<Rightarrow> ustring list" where
  "group_keys df =
     sort (remdups (concat (map (\<lambda>r. case normalized_distance r of PyStr s \<Rightarrow> [s] | _ \<Rightarrow> []) df)))"

definition group_of :: "frame_row list \<Rightarrow> ustring \<Rightarrow> frame_row list" where
  "group_of df k = filter (\<lambda>r. normalized_distance r = PyStr k) df"

definition best_indices :: "frame_row list \<Rightarrow> error + nat list" where
  "best_indices df = all_or_error (map (\<lambda>k. idxmin (race_times (group_of df k))) (group_keys df))"

definition order_list :: "ustring list" where
  "order_list = [ascii ''42K'', ascii ''21K'', ascii ''15K'', ascii ''10K'', ascii ''5K'']"

fun list_index :: "'a list \<Rightarrow> 'a \<Rightarrow> nat" where
  "list_index [] x = 0"
| "list_index (y # ys) x = (if y = x then 0 else Suc (list_index ys x))"

text \<open>\<open>order.index(x) if x in order else len(order)\<close>.\<close>

definition order_key :: "pyval \<Rightarrow> nat" where
  "order_key x =
     (case x of
        PyStr s \<Rightarrow> if s \<in> set order_list then list_index order_list s else length order_list
      | _ \<Rightarrow> length order_list)"

definition mark_best :: "frame_row \<Rightarrow> frame_row" where
  "mark_best r = r\<lparr>cells := (cells r)(col_note \<mapsto> best_result_marker)\<rparr>"

text \<open>
  \<open>sort_values("order_key")\<close>. The keys of the best rows of one person are distinct
  (one row per category), so the order of the result does not depend on the sorting
  algorithm.
\<close>

definition order_best_rows :: "frame_row list \<Rightarrow> frame_row list" where
  "order_best_rows best_rows = sort_key (\<lambda>r. order_key (normalized_distance r)) best_rows"

text \<open>
  \<open>fetch_and_process_results\<close>, from the answer to its request on, up to the two frames
  it returns (the Excel export writes them out and changes neither). Nothing is caught
  here: a failed request, a page without a table and a table without rows
  (\<open>max\<close> of an empty sequence) all raise.
\<close>

definition fetch_and_process_results ::
  "(ustring \<Rightarrow> int option) \<Rightarrow> lookup \<Rightarrow> error + (frame_row list \<times> frame_row list)"
where
  "fetch_and_process_results td page =
     (case page of
        Timeout \<Rightarrow> Inl RequestException
      | RequestFailed \<Rightarrow> Inl RequestException
      | NoTable \<Rightarrow> Inl ValueError
      | Table rows \<Rightarrow>
          if rows = [] then Inl ValueError
          else if \<not> has_column col_distance rows then Inl KeyError
          else
            let df = sp_build_frame td rows in
            (case best_indices (df_for_best df) of
               Inl e \<Rightarrow> Inl e
             | Inr idxs \<Rightarrow>
                 (case all_or_error (map (loc df) idxs) of
                    Inl e \<Rightarrow> Inl e
                  | Inr best_rows \<Rightarrow> Inr (order_best_rows (map mark_best best_rows), df))))"

section \<open>Birth years\<close>

text \<open>
  The shapes \<open>normalize_year\<close> tells apart: missing (\<open>None\<close>, \<open>nan\<close>), an \<open>int\<close>, a
  \<open>str\<close>, a \<open>pd.Timestamp\<close> (of which only the year is read) and any other scalar
  object (\<open>YOther\<close>). Floats, booleans and list-like values (on which \<open>pd.isna\<close> gives
  an array and the test of it raises) are left out. Python's \<open>int(text)\<close> is the argument
  \<open>to_int\<close>, with \<open>None\<close> where \<open>int\<close> raises \<open>ValueError\<close>.
\<close>

datatype year_cell = YNone | YNaN | YInt int | YStr ustring | YTimestamp int | YOther

text \<open>\<open>s.split(sep)\<close> for a one-character separator.\<close>

fun split :: "'a \<Rightarrow> 'a list \<Rightarrow> 'a list list" where
  "split sep [] = [[]]"
| "split sep (x # xs) =
     (if x = sep then [] # split sep xs
      else (case split sep xs of [] \<Rightarrow> [[x]] | p # ps \<Rightarrow> (x # p) # ps))"

definition normalize_year :: "(ustring \<Rightarrow> int option) \<Rightarrow> year_cell \<Rightarrow> error + int option" where
  "normalize_year to_int y =
     (case y of
        YNone \<Rightarrow> Inr None
      | YNaN \<Rightarrow> Inr None
      | YInt n \<Rightarrow> Inr (Some n)
      | YStr s \<Rightarrow>
          if contains s (ascii ''/'') then
            let parts = split (47 :: nat) s in
            if length parts \<le> 2 then Inl IndexError
            else (case to_int (parts ! 2) of
                    None \<Rightarrow> Inl ValueError
                  | Some year \<Rightarrow>
                      Inr (Some (if year < 100
                                 then year + (if year > 25 then 1900 else 2000)
                                 else year)))
          else (case to_int s of None \<Rightarrow> Inr None | Some n \<Rightarrow> Inr (Some n))
      | YTimestamp year \<Rightarrow> Inr (Some year)
      | YOther \<Rightarrow> Inr None)"

section \<open>Parsers for the examples\<close>

text \<open>
  Stand-ins for the two library parsers, for evaluating the functions above on concrete
  tables. Each accepts a narrow set of texts and gives the library's value on them:
  \<open>clock_timedelta\<close> accepts clock text \<open>h:mm:ss\<close> with one or two hour digits and
  two-digit minutes and seconds below 60, read as seconds; \<open>decimal_int\<close> accepts an
  optional sign followed by one to nine ASCII digits. Every other text is unparseable
  here, also texts the library does parse (a bare number as a duration, blanks or
  digit-group underscores around an integer).
\<close>

definition digits_value :: "ustring \<Rightarrow> nat option" where
  "digits_value s =
     (if s \<noteq> [] \<and> list_all (\<lambda>c. 48 \<le> c \<and> c \<le> 57) s
      then Some (foldl (\<lambda>a c. 10 * a + (c - 48)) 0 s) else None)"

definition two_digits :: "ustring \<Rightarrow> nat option" where
  "two_digits s = (if length s = 2 then digits_value s else None)"

definition clock_timedelta :: "ustring \<Rightarrow> int option" where
  "clock_timedelta s =
     (case split (58 :: nat) s of
        [h, m, sec] \<Rightarrow>
          (case (if length h \<le> 2 then digits_value h else None, two_digits m, two_digits sec) of
             (Some hours, Some minutes, Some seconds) \<Rightarrow>
               if minutes < 60 \<and> seconds < 60
               then Some (int (hours * 3600 + minutes * 60 + seconds)) else None
           | _ \<Rightarrow> None)
      | _ \<Rightarrow> None)"

definition few_digits :: "ustring \<Rightarrow> nat option" where
  "few_digits s = (if length s \<le> 9 then digits_value s else None)"

definition decimal_int :: "ustring \<Rightarrow> int option" where
  "decimal_int s =
     (case s of
        [] \<Rightarrow> None
      | c # cs \<Rightarrow>
          if c = 45 then map_option (\<lambda>n. - int n) (few_digits cs)
          else if c = 43 then map_option int (few_digits cs)
          else map_option int (few_digits (c # cs)))"

section \<open>Example tables\<close>

text \<open>A scraped row with the three columns the selection reads, from ASCII text.\<close>

definition result_row :: "string \<Rightarrow> string \<Rightarrow> string \<Rightarrow> row" where
  "result_row distance personal_time result =
     [col_distance \<mapsto> ascii distance, col_personal_time \<mapsto> ascii personal_time,
      col_result \<mapsto> ascii result]"

text \<open>
  Three half marathons in 1:45:00, 1:50:00 and 1:40:00 (the last one with the time in
  the result column only).
\<close>

definition three_half_marathons :: "row list" where
  "three_half_marathons =
     [result_row ''21097'' ''1:45:00'' ''1:45:09'', result_row ''21K'' ''1:50:00'' [],
      result_row ''21000'' ''0'' ''1:40:00'']"

text \<open>One race each over 5, 42 and 10 kilometres, in this order.\<close>

definition three_distances :: "row list" where
  "three_distances =
     [result_row ''5000'' ''0:25:00'' [], result_row ''42195'' ''3:50:00'' [],
      result_row ''10000'' ''0:50:00'' []]"

text \<open>A single 10 km race that was not finished: no personal time, result \<open>DNF\<close>.\<close>

definition unfinished_10K :: "row list" where
  "unfinished_10K = [result_row ''10000'' [] ''DNF'']"

text \<open>
  Two 10 km races: one without a recorded time (\<open>00:00:00\<close> in both time columns) and
  one in 0:50:00.
\<close>

definition unrecorded_and_10K :: "row list" where
  "unrecorded_and_10K =
     [result_row ''10000'' ''00:00:00'' ''00:00:00'', result_row ''10000'' ''0:50:00'' []]"

text \<open>A single race over a distance outside the five categories.\<close>

definition unknown_distance :: "row list" where
  "unknown_distance = [result_row ''7 km'' [] ''0:40:00'']"

text \<open>
  Three participants A, B and C: the request for B times out, A has a 10 km race in
  1:30:00 and C one in 1:25:00.
\<close>

definition names_ABC :: "((ustring \<times> ustring) \<times> lookup) list" where
  "names_ABC =
     [((ascii ''A'', ascii ''X''), Table [result_row ''10000'' ''1:30:00'' []]),
      ((ascii ''B'', ascii ''X''), Timeout),
      ((ascii ''C'', ascii ''X''), Table [result_row ''10000'' ''1:25:00'' []])]"

section \<open>Facts about strings\<close>

lemmas literal_defs = ascii_def hatsi_def maraton_def aliases_10K_def aliases_21K_def
  aliases_42K_def sp_aliases_21K_def

lemma mem_dropWhile: "c \<in> set s \<Longrightarrow> \<not> P c \<Longrightarrow> c \<in> set (dropWhile P s)"
  by (induction s) auto

lemma mem_strip: "c \<in> set s \<Longrightarrow> \<not> isspace c \<Longrightarrow> c \<in> set (strip s)"
  unfolding strip_def by (simp add: mem_dropWhile)

lemma contains_single: "contains s [c] \<longleftrightarrow> c \<in> set s"
  by (induction s) auto

lemma all_space_dropWhile:
  "(\<forall>c \<in> set (dropWhile isspace s). isspace c) \<longleftrightarrow> dropWhile isspace s = []"
proof
  assume h: "\<forall>c \<in> set (dropWhile isspace s). isspace c"
  show "dropWhile isspace s = []"
  proof (rule ccontr)
    assume n: "dropWhile isspace s \<noteq> []"
    then have "\<not> isspace (hd (dropWhile isspace s))" by (rule hd_dropWhile)
    moreover have "hd (dropWhile isspace s) \<in> set (dropWhile isspace s)" using n by simp
    ultimately show False using h by blast
  qed
next
  assume "dropWhile isspace s = []"
  then show "\<forall>c \<in> set (dropWhile isspace s). isspace c" by (auto dest: set_dropWhileD)
qed

lemma strip_blank: "strip s = [] \<longleftrightarrow> (\<forall>c \<in> set s. isspace c)"
proof -
  have "strip s = [] \<longleftrightarrow> (\<forall>c \<in> set (dropWhile isspace s). isspace c)"
    unfolding strip_def by (simp add: dropWhile_eq_Nil_conv)
  also have "\<dots> \<longleftrightarrow> dropWhile isspace s = []" by (rule all_space_dropWhile)
  also have "\<dots> \<longleftrightarrow> (\<forall>c \<in> set s. isspace c)" by (rule dropWhile_eq_Nil_conv)
  finally show ?thesis .
qed

lemma two_survives_strip: "contains s (ascii ''2'') \<Longrightarrow> contains (strip s) (ascii ''2'')"
proof -
  assume "contains s (ascii ''2'')"
  then have "50 \<in> set s" by (simp add: ascii_def contains_single)
  then have "50 \<in> set (strip s)" by (rule mem_strip) (simp add: isspace_def)
  then show ?thesis by (simp add: ascii_def contains_single)
qed

lemma labels_differ_from_5K:
  "ascii ''10K'' \<noteq> ascii ''5K''" "ascii ''21K'' \<noteq> ascii ''5K''"
  "ascii ''42K'' \<noteq> ascii ''5K''" "ascii ''15K'' \<noteq> ascii ''5K''"
  by (simp_all add: ascii_def)

section \<open>The category normalizer\<close>

text \<open>
  C4. In \<open>best_race_results_per_participant.normalize_distance\<close> every member of the 21K
  alias list (the metre counts 21097 and 21000, 21K, 21k, the Hebrew "21 km" and the Hebrew
  half-marathon names with a space, a hyphen and an underscore) normalizes to 21K, every
  member of the 10K list to 10K and every member of the 42K list to 42K. The nested
  normalizer of the single-person module agrees on the 10K and 42K lists, but of the
  nine 21K aliases it knows only the four ASCII ones: the five Hebrew ones come out as
  unknown.
\<close>

theorem nested_normalizer_misses_hebrew:
  "map (\<lambda>s. normalize_distance (PyStr s)) aliases_21K
     = replicate (length aliases_21K) (PyStr (ascii ''21K'')) \<and>
   map (\<lambda>s. normalize_distance (PyStr s)) aliases_10K
     = replicate (length aliases_10K) (PyStr (ascii ''10K'')) \<and>
   map (\<lambda>s. normalize_distance (PyStr s)) aliases_42K
     = replicate (length aliases_42K) (PyStr (ascii ''42K'')) \<and>
   aliases_21K =
     [ascii ''21097'', ascii ''21 '' @ [1511, 34, 1502], ascii ''21000'', ascii ''21K'',
      ascii ''21k'', hatsi @ [32] @ maraton,
      hatsi @ [32] @ maraton @ [32, 1514, 1495, 1512, 1493, 1514, 1497],
      hatsi @ [45] @ maraton, hatsi @ [95] @ maraton] \<and>
   map (\<lambda>s. sp_normalize_distance (PyStr s)) aliases_21K
     = [PyStr (ascii ''21K''), PyNaN, PyStr (ascii ''21K''), PyStr (ascii ''21K''),
        PyStr (ascii ''21K''), PyNaN, PyNaN, PyNaN, PyNaN] \<and>
   map (\<lambda>s. sp_normalize_distance (PyStr s)) aliases_10K
     = replicate (length aliases_10K) (PyStr (ascii ''10K'')) \<and>
   map (\<lambda>s. sp_normalize_distance (PyStr s)) aliases_42K
     = replicate (length aliases_42K) (PyStr (ascii ''42K''))"
  by (simp add: normalize_distance_def sp_normalize_distance_def literal_defs strip_def
      isspace_def)

text \<open>
  C5. The normalizer is a total function into the closed set of the five category
  labels and \<open>nan\<close> (unknown): it has a result for \<open>None\<close>, \<open>nan\<close> and every string,
  and no step of it can raise on them. \<open>None\<close>, \<open>nan\<close> and every string that is empty
  or all blanks give unknown.
\<close>

theorem normalize_distance_total:
  "normalize_distance v \<in> categories \<and>
   sp_normalize_distance v \<in> categories \<and>
   normalize_distance PyNone = PyNaN \<and>
   normalize_distance PyNaN = PyNaN \<and>
   normalize_distance (PyStr []) = PyNaN \<and>
   (\<forall>s. (\<forall>c \<in> set s. isspace c) \<longrightarrow> normalize_distance (PyStr s) = PyNaN)"
  by (simp add: normalize_distance_def sp_normalize_distance_def categories_def Let_def
      strip_blank)

theorem normalize_distance_total_witness:
  "(\<exists>c \<in> set (ascii '' 21k''). \<not> isspace c) \<and>
   normalize_distance (PyStr (ascii '' 21k'')) \<in> categories \<and>
   list_all isspace [32, 9, 160] \<and>
   normalize_distance (PyStr [32, 9, 160]) = PyNaN"
proof -
  have b: "\<forall>c \<in> set [32, 9, 160]. isspace c" by (simp add: isspace_def)
  have n: "\<exists>c \<in> set (ascii '' 21k''). \<not> isspace c" by (simp add: ascii_def isspace_def)
  from b normalize_distance_total have "normalize_distance (PyStr [32, 9, 160]) = PyNaN"
    by blast
  with b n normalize_distance_total [of "PyStr (ascii '' 21k'')"] show ?thesis
    by (simp add: list_all_iff)
qed

text \<open>
  C6. A label that contains the digit 5 and the digit 2 is never classified as 5K,
  whatever else it holds; the label \<open>25 QOF GERSHAYIM MEM\<close> ("25 km") is unknown.
\<close>

theorem five_with_two_not_5K:
  "(contains s (ascii ''5'') \<and> contains s (ascii ''2'') \<longrightarrow>
      normalize_distance (PyStr s) \<noteq> PyStr (ascii ''5K'') \<and>
      sp_normalize_distance (PyStr s) \<noteq> PyStr (ascii ''5K'')) \<and>
   normalize_distance (PyStr (ascii ''25 '' @ [1511, 1524, 1502])) = PyNaN"
proof -
  have "normalize_distance (PyStr (ascii ''25 '' @ [1511, 1524, 1502])) = PyNaN"
    by (simp add: normalize_distance_def literal_defs strip_def isspace_def)
  moreover have "normalize_distance (PyStr s) \<noteq> PyStr (ascii ''5K'')"
    if "contains s (ascii ''2'')"
    using two_survives_strip [OF that] labels_differ_from_5K
    by (simp add: normalize_distance_def Let_def)
  moreover have "sp_normalize_distance (PyStr s) \<noteq> PyStr (ascii ''5K'')"
    if "contains s (ascii ''2'')"
    using two_survives_strip [OF that] labels_differ_from_5K
    by (simp add: sp_normalize_distance_def Let_def)
  ultimately show ?thesis by blast
qed

theorem five_with_two_not_5K_witness:
  "contains (ascii ''2.5K'') (ascii ''5'') \<and> contains (ascii ''2.5K'') (ascii ''2'') \<and>
   normalize_distance (PyStr (ascii ''2.5K'')) \<noteq> PyStr (ascii ''5K'')"
proof -
  have c: "contains (ascii ''2.5K'') (ascii ''5'')" "contains (ascii ''2.5K'') (ascii ''2'')"
    by (simp_all add: ascii_def)
  with five_with_two_not_5K [of "ascii ''2.5K''"] show ?thesis by blast
qed

text \<open>
  C10. The normalizer is not idempotent on its own results: the label 10K is in no
  alias list and matches no substring rule, so it normalizes to unknown, while 21K,
  42K, 15K and 5K normalize to themselves. Normalizing 10000 gives 10K, and normalizing
  that again gives unknown. The nested normalizer of the single-person module behaves the
  same.
\<close>

theorem normalize_distance_not_idempotent:
  "normalize_distance (PyStr (ascii ''10K'')) = PyNaN \<and>
   normalize_distance (PyStr (ascii ''21K'')) = PyStr (ascii ''21K'') \<and>
   normalize_distance (PyStr (ascii ''42K'')) = PyStr (ascii ''42K'') \<and>
   normalize_distance (PyStr (ascii ''15K'')) = PyStr (ascii ''15K'') \<and>
   normalize_distance (PyStr (ascii ''5K'')) = PyStr (ascii ''5K'') \<and>
   normalize_distance (PyStr (ascii ''10000'')) = PyStr (ascii ''10K'') \<and>
   normalize_distance (normalize_distance (PyStr (ascii ''10000''))) \<noteq>
     normalize_distance (PyStr (ascii ''10000'')) \<and>
   sp_normalize_distance (PyStr (ascii ''10K'')) = PyNaN \<and>
   sp_normalize_distance (sp_normalize_distance (PyStr (ascii ''10000''))) \<noteq>
     sp_normalize_distance (PyStr (ascii ''10000''))"
  by (simp add: normalize_distance_def sp_normalize_distance_def literal_defs strip_def
      isspace_def)

section \<open>The time resolver\<close>

lemmas col_defs = col_personal_time_def col_result_def col_distance_def col_best_time_def
  col_first_name_def col_last_name_def col_note_def

lemma strip_Nil: "strip [] = []"
  by (simp add: strip_def)

lemma choose_best_time_string_trimmed:
  "choose_best_time_string r =
     (if strip (row_get r col_personal_time []) \<notin> set null_times
      then strip (row_get r col_personal_time [])
      else if strip (row_get r col_result []) \<notin> set null_times
      then strip (row_get r col_result []) else [])"
  by (simp add: choose_best_time_string_def Let_def)

section \<open>Selecting the fastest row\<close>

lemma first_min_mem: "first_min b cs \<in> set (b # cs)"
proof (induction cs arbitrary: b)
  case Nil
  show ?case by simp
next
  case (Cons c cs)
  from Cons [of "if snd c < snd b then c else b"] show ?case by auto
qed

lemma first_min_le_start: "snd (first_min b cs) \<le> snd b"
proof (induction cs arbitrary: b)
  case Nil
  show ?case by simp
next
  case (Cons c cs)
  from Cons [of "if snd c < snd b then c else b"] show ?case by (auto split: if_splits)
qed

lemma first_min_le: "x \<in> set (b # cs) \<Longrightarrow> snd (first_min b cs) \<le> snd x"
proof (induction cs arbitrary: b)
  case Nil
  then show ?case by simp
next
  case (Cons c cs)
  let ?b = "if snd c < snd b then c else b"
  have start: "snd (first_min ?b cs) \<le> snd ?b" by (rule first_min_le_start)
  from Cons.prems consider "x = b" | "x = c" | "x \<in> set cs" by auto
  then show ?case
  proof cases
    case 1
    with start show ?thesis by (auto split: if_splits)
  next
    case 2
    with start show ?thesis by (auto split: if_splits)
  next
    case 3
    then have "x \<in> set (?b # cs)" by simp
    from Cons.IH [OF this] show ?thesis by simp
  qed
qed

lemma not_na_iff: "(i, d) \<in> set (not_na s) \<longleftrightarrow> (i, Some d) \<in> set s"
  by (induction s rule: not_na.induct) auto

lemma idxmin_Inr:
  assumes "idxmin s = Inr i"
  shows "\<exists>d. (i, Some d) \<in> set s \<and> (\<forall>j d'. (j, Some d') \<in> set s \<longrightarrow> d \<le> d')"
proof -
  from assms obtain p ps where np: "not_na s = p # ps" and i: "i = fst (first_min p ps)"
    by (auto simp: idxmin_def split: list.splits)
  let ?m = "first_min p ps"
  have "?m \<in> set (not_na s)" using first_min_mem [of p ps] np by simp
  then have "(fst ?m, snd ?m) \<in> set (not_na s)" by simp
  then have a: "(i, Some (snd ?m)) \<in> set s" using i by (simp only: not_na_iff)
  have "snd ?m \<le> d'" if "(j, Some d') \<in> set s" for j d'
  proof -
    from that have "(j, d') \<in> set (p # ps)" using np by (simp only: not_na_iff [symmetric])
    from first_min_le [OF this] show ?thesis by simp
  qed
  with a show ?thesis by blast
qed

lemma idxmin_Inl: "idxmin s = Inl e \<Longrightarrow> e = ValueError \<and> (\<forall>i d. (i, Some d) \<notin> set s)"
proof -
  assume "idxmin s = Inl e"
  then have e: "e = ValueError" and "not_na s = []"
    by (auto simp: idxmin_def split: list.splits)
  then have "(i, d) \<notin> set (not_na s)" for i d by simp
  then show ?thesis using e by (simp add: not_na_iff)
qed

lemma idxmin_all_na: "(\<forall>p \<in> set s. snd p = None) \<Longrightarrow> idxmin s = Inl ValueError"
proof -
  assume a: "\<forall>p \<in> set s. snd p = None"
  have "not_na s = []"
  proof (cases "not_na s")
    case Nil
    then show ?thesis .
  next
    case (Cons p ps)
    then have "(fst p, snd p) \<in> set (not_na s)" by simp
    then have "(fst p, Some (snd p)) \<in> set s" by (simp only: not_na_iff)
    with a show ?thesis by force
  qed
  then show ?thesis by (simp add: idxmin_def)
qed

lemma loc_Inr: "loc df i = Inr r \<Longrightarrow> r \<in> set df \<and> label r = i"
  by (auto simp: loc_def find_Some_iff split: option.splits)

lemma label_unique:
  "distinct (map label df) \<Longrightarrow> r \<in> set df \<Longrightarrow> r' \<in> set df \<Longrightarrow> label r = label r' \<Longrightarrow> r = r'"
  by (auto simp: distinct_map dest: inj_onD)

lemma build_frame_labels: "map label (build_frame td rows) = [0..<length rows]"
proof -
  have "map label (build_frame td rows) = map fst (enumerate 0 rows)"
    by (simp add: build_frame_def case_prod_beta comp_def)
  then show ?thesis by simp
qed

lemma sp_build_frame_labels: "map label (sp_build_frame td rows) = [0..<length rows]"
proof -
  have "map label (sp_build_frame td rows) = map fst (enumerate 0 rows)"
    by (simp add: sp_build_frame_def case_prod_beta comp_def)
  then show ?thesis by simp
qed

lemma fetch_best_result_Some:
  assumes "fetch_best_result td page f l cat = Inr (Some b)"
  shows "\<exists>rows r d. page = Table rows \<and> r \<in> set (build_frame td rows) \<and> b = tag_best f l r \<and>
           normalized_distance r = PyStr cat \<and> race_time r = Some d \<and>
           (\<forall>r' \<in> set (build_frame td rows). normalized_distance r' = PyStr cat \<longrightarrow>
              (\<forall>d'. race_time r' = Some d' \<longrightarrow> d \<le> d'))"
proof -
  from assms obtain rows where page: "page = Table rows"
    by (cases page) (auto simp: fetch_best_result_def)
  define df where "df = build_frame td rows"
  define df_cat where "df_cat = filter (\<lambda>r. normalized_distance r = PyStr cat) df"
  from assms page obtain i r where i: "idxmin (race_times df_cat) = Inr i"
    and r: "loc df_cat i = Inr r" and b: "b = tag_best f l r"
    by (auto simp: fetch_best_result_def Let_def df_def df_cat_def split: if_splits sum.splits)
  from idxmin_Inr [OF i] obtain d where d: "(i, Some d) \<in> set (race_times df_cat)"
    and m: "\<forall>j d'. (j, Some d') \<in> set (race_times df_cat) \<longrightarrow> d \<le> d'" by blast
  from d obtain r0 where r0: "r0 \<in> set df_cat" "label r0 = i" "race_time r0 = Some d"
    by (auto simp: race_times_def)
  have dist: "distinct (map label df_cat)"
    unfolding df_cat_def df_def by (simp add: distinct_map_filter build_frame_labels)
  from loc_Inr [OF r] have "r \<in> set df_cat" "label r = i" by auto
  with r0 dist have "r = r0" by (metis label_unique)
  with r0 have r1: "r \<in> set df" "normalized_distance r = PyStr cat" "race_time r = Some d"
    by (auto simp: df_cat_def)
  have "d \<le> d'" if "r' \<in> set df" "normalized_distance r' = PyStr cat" "race_time r' = Some d'"
    for r' d'
  proof -
    from that have "(label r', Some d') \<in> set (race_times df_cat)"
      by (force simp: race_times_def df_cat_def)
    with m show ?thesis by blast
  qed
  with page b r1 show ?thesis unfolding df_def by blast
qed

lemma all_or_error_map_Inr: "all_or_error (map Inr ys) = Inr ys"
  by (induction ys) simp_all

lemma all_or_error_Inr: "all_or_error xs = Inr ys \<longleftrightarrow> xs = map Inr ys"
proof
  show "all_or_error xs = Inr ys \<Longrightarrow> xs = map Inr ys"
  proof (induction xs arbitrary: ys)
    case Nil
    then show ?case by simp
  next
    case (Cons x xs)
    from Cons.prems obtain a as where x: "x = Inr a" and as: "all_or_error xs = Inr as"
      and ys: "ys = a # as"
      by (auto split: sum.splits)
    from Cons.IH [OF as] x ys show ?case by simp
  qed
next
  show "xs = map Inr ys \<Longrightarrow> all_or_error xs = Inr ys" by (simp add: all_or_error_map_Inr)
qed

lemma mark_best_fields:
  "normalized_distance (mark_best r) = normalized_distance r"
  "race_time (mark_best r) = race_time r"
  "label (mark_best r) = label r"
  "cells (mark_best r) col_note = Some best_result_marker"
  by (simp_all add: mark_best_def)

lemma group_keys_distinct: "distinct (group_keys df)"
  by (simp add: group_keys_def)

lemma group_keys_mem: "k \<in> set (group_keys df) \<longleftrightarrow> (\<exists>r \<in> set df. normalized_distance r = PyStr k)"
  by (auto simp: group_keys_def split: pyval.splits) metis

lemma best_rows_of_groups:
  assumes bi: "best_indices dfb = Inr idxs"
    and lo: "all_or_error (map (loc df) idxs) = Inr rows"
    and sub: "set dfb \<subseteq> set df"
    and dist: "distinct (map label df)"
  shows "length rows = length (group_keys dfb)"
    and "n < length rows \<Longrightarrow>
           rows ! n \<in> set dfb \<and> normalized_distance (rows ! n) = PyStr (group_keys dfb ! n) \<and>
           (\<exists>d. race_time (rows ! n) = Some d \<and>
              (\<forall>r' \<in> set dfb. normalized_distance r' = normalized_distance (rows ! n) \<longrightarrow>
                 (\<forall>d'. race_time r' = Some d' \<longrightarrow> d \<le> d')))"
proof -
  from bi have m1: "map (\<lambda>k. idxmin (race_times (group_of dfb k))) (group_keys dfb) = map Inr idxs"
    by (simp add: best_indices_def all_or_error_Inr)
  from lo have m2: "map (loc df) idxs = map Inr rows" by (simp add: all_or_error_Inr)
  from m1 have l1: "length (group_keys dfb) = length idxs" by (metis length_map)
  from m2 have l2: "length idxs = length rows" by (metis length_map)
  from l1 l2 show len: "length rows = length (group_keys dfb)" by simp
  assume n: "n < length rows"
  let ?k = "group_keys dfb ! n"
  from n len l1 m1 have i: "idxmin (race_times (group_of dfb ?k)) = Inr (idxs ! n)"
    by (metis length_map nth_map)
  from n l2 m2 have r: "loc df (idxs ! n) = Inr (rows ! n)" by (metis length_map nth_map)
  from idxmin_Inr [OF i] obtain d where d: "(idxs ! n, Some d) \<in> set (race_times (group_of dfb ?k))"
    and m: "\<forall>j d'. (j, Some d') \<in> set (race_times (group_of dfb ?k)) \<longrightarrow> d \<le> d'" by blast
  from d obtain r0 where r0: "r0 \<in> set dfb" "normalized_distance r0 = PyStr ?k"
    "label r0 = idxs ! n" "race_time r0 = Some d"
    by (auto simp: race_times_def group_of_def)
  from loc_Inr [OF r] have "rows ! n \<in> set df" "label (rows ! n) = idxs ! n" by auto
  with r0 sub dist have eq: "rows ! n = r0" by (metis label_unique subsetD)
  have "d \<le> d'" if "r' \<in> set dfb" "normalized_distance r' = PyStr ?k" "race_time r' = Some d'"
    for r' d'
  proof -
    from that have "(label r', Some d') \<in> set (race_times (group_of dfb ?k))"
      by (force simp: race_times_def group_of_def)
    with m show ?thesis by blast
  qed
  with eq r0 show "rows ! n \<in> set dfb \<and> normalized_distance (rows ! n) = PyStr ?k \<and>
           (\<exists>d. race_time (rows ! n) = Some d \<and>
              (\<forall>r' \<in> set dfb. normalized_distance r' = normalized_distance (rows ! n) \<longrightarrow>
                 (\<forall>d'. race_time r' = Some d' \<longrightarrow> d \<le> d')))" by auto
qed

lemma df_for_best_same_category:
  "r \<in> set (df_for_best df) \<Longrightarrow> r' \<in> set df \<Longrightarrow> normalized_distance r' = normalized_distance r
     \<Longrightarrow> r' \<in> set (df_for_best df)"
  by (simp add: df_for_best_def)

lemma distinct_map_sort_key: "distinct (map f (sort_key k xs)) = distinct (map f xs)"
  by (simp add: distinct_map)

lemma fetch_and_process_results_Inr:
  assumes "fetch_and_process_results td page = Inr (best, df)"
  shows "distinct (map normalized_distance best)"
    and "b \<in> set best \<Longrightarrow>
           b \<in> mark_best ` set df \<and> cells b col_note = Some best_result_marker \<and>
           \<not> isna (normalized_distance b) \<and>
           (\<exists>d. race_time b = Some d \<and>
              (\<forall>r' \<in> set df. normalized_distance r' = normalized_distance b \<longrightarrow>
                 (\<forall>d'. race_time r' = Some d' \<longrightarrow> d \<le> d')))"
    and "sorted (map (\<lambda>r. order_key (normalized_distance r)) best)"
proof -
  from assms obtain rows where page: "page = Table rows"
    by (cases page) (auto simp: fetch_and_process_results_def)
  from assms page obtain idxs best_rows where df: "df = sp_build_frame td rows"
    and bi: "best_indices (df_for_best df) = Inr idxs"
    and lo: "all_or_error (map (loc df) idxs) = Inr best_rows"
    and best: "best = order_best_rows (map mark_best best_rows)"
    by (auto simp: fetch_and_process_results_def Let_def split: if_splits sum.splits)
  have sub: "set (df_for_best df) \<subseteq> set df" by (auto simp: df_for_best_def)
  have dist: "distinct (map label df)" by (simp add: df sp_build_frame_labels)
  note g = best_rows_of_groups [OF bi lo sub dist]
  have "map normalized_distance best_rows = map PyStr (group_keys (df_for_best df))"
    by (rule nth_equalityI) (simp_all add: g)
  then have "distinct (map normalized_distance best_rows)"
    by (simp add: distinct_map group_keys_distinct inj_on_def)
  then show "distinct (map normalized_distance best)"
    by (simp add: best order_best_rows_def distinct_map_sort_key comp_def mark_best_fields)
  show "sorted (map (\<lambda>r. order_key (normalized_distance r)) best)"
    unfolding best order_best_rows_def by (rule sorted_sort_key)
  assume "b \<in> set best"
  then obtain n where n: "n < length best_rows" and b: "b = mark_best (best_rows ! n)"
    by (auto simp: best order_best_rows_def in_set_conv_nth)
  let ?r = "best_rows ! n"
  from g(2) [OF n] obtain d where r: "?r \<in> set (df_for_best df)" "race_time ?r = Some d"
    and m: "\<forall>r' \<in> set (df_for_best df). normalized_distance r' = normalized_distance ?r \<longrightarrow>
                 (\<forall>d'. race_time r' = Some d' \<longrightarrow> d \<le> d')" by blast
  have "d \<le> d'" if "r' \<in> set df" "normalized_distance r' = normalized_distance ?r"
    "race_time r' = Some d'" for r' d'
    using df_for_best_same_category [OF r(1) that(1,2)] m that by blast
  moreover have "\<not> isna (normalized_distance ?r)" using r(1) by (simp add: df_for_best_def)
  moreover have "?r \<in> set df" using r(1) sub by blast
  ultimately show "b \<in> mark_best ` set df \<and> cells b col_note = Some best_result_marker \<and>
           \<not> isna (normalized_distance b) \<and>
           (\<exists>d. race_time b = Some d \<and>
              (\<forall>r' \<in> set df. normalized_distance r' = normalized_distance b \<longrightarrow>
                 (\<forall>d'. race_time r' = Some d' \<longrightarrow> d \<le> d')))"
    using r(2) by (auto simp: b mark_best_fields)
qed

lemma idxmin_some: "(i, Some d) \<in> set s \<Longrightarrow> \<exists>j. idxmin s = Inr j"
proof -
  assume "(i, Some d) \<in> set s"
  then have "(i, d) \<in> set (not_na s)" by (simp only: not_na_iff)
  then show ?thesis by (cases "not_na s") (auto simp: idxmin_def)
qed

lemma loc_some: "r \<in> set df \<Longrightarrow> \<exists>r'. loc df (label r) = Inr r'"
proof -
  assume "r \<in> set df"
  then have "find (\<lambda>x. label x = label r) df \<noteq> None" by (auto simp: find_None_iff)
  then show ?thesis by (auto simp: loc_def)
qed

lemma all_or_error_some: "(\<forall>x \<in> set xs. \<exists>a. x = Inr a) \<Longrightarrow> \<exists>ys. all_or_error xs = Inr ys"
proof (induction xs)
  case Nil
  show ?case by simp
next
  case (Cons x xs)
  then obtain a ys where "x = Inr a" "all_or_error xs = Inr ys" by auto
  then show ?case by simp
qed

lemma fetch_best_result_returns:
  assumes col: "has_column col_distance rows"
    and ex: "\<exists>r \<in> set (build_frame td rows). normalized_distance r = PyStr cat \<and> race_time r \<noteq> None"
  shows "\<exists>b. fetch_best_result td (Table rows) f l cat = Inr (Some b)"
proof -
  define df_cat where "df_cat = filter (\<lambda>r. normalized_distance r = PyStr cat) (build_frame td rows)"
  from ex obtain r d where r: "r \<in> set df_cat" "race_time r = Some d"
    by (auto simp: df_cat_def)
  then have "(label r, Some d) \<in> set (race_times df_cat)" by (force simp: race_times_def)
  from idxmin_some [OF this] obtain j where j: "idxmin (race_times df_cat) = Inr j" by blast
  from idxmin_Inr [OF j] obtain r0 where "r0 \<in> set df_cat" "label r0 = j"
    by (auto simp: race_times_def)
  with loc_some [of r0 df_cat] obtain r' where r': "loc df_cat j = Inr r'" by auto
  from ex have ne: "rows \<noteq> []" by (auto simp: build_frame_def)
  from r(1) have "df_cat \<noteq> []" by auto
  with col ne j r' show ?thesis
    by (simp add: fetch_best_result_def Let_def df_cat_def [symmetric])
qed

lemma fetch_and_process_results_returns:
  assumes ne: "rows \<noteq> []" and col: "has_column col_distance rows"
    and ex: "\<forall>r \<in> set (df_for_best (sp_build_frame td rows)).
        \<exists>r' \<in> set (df_for_best (sp_build_frame td rows)).
          normalized_distance r' = normalized_distance r \<and> race_time r' \<noteq> None"
  shows "\<exists>best. fetch_and_process_results td (Table rows) = Inr (best, sp_build_frame td rows)"
proof -
  define df where "df = sp_build_frame td rows"
  define dfb where "dfb = df_for_best df"
  have sub: "set dfb \<subseteq> set df" by (auto simp: dfb_def df_for_best_def)
  have "\<exists>j. idxmin (race_times (group_of dfb k)) = Inr j" if "k \<in> set (group_keys dfb)" for k
  proof -
    from that obtain r where "r \<in> set dfb" "normalized_distance r = PyStr k"
      by (auto simp: group_keys_mem)
    with ex obtain r' d where "r' \<in> set dfb" "normalized_distance r' = PyStr k"
      "race_time r' = Some d"
      unfolding dfb_def df_def by fastforce
    then have "(label r', Some d) \<in> set (race_times (group_of dfb k))"
      by (force simp: race_times_def group_of_def)
    then show ?thesis by (rule idxmin_some)
  qed
  then have "\<exists>idxs. best_indices dfb = Inr idxs"
    unfolding best_indices_def by (intro all_or_error_some) auto
  then obtain idxs where bi: "best_indices dfb = Inr idxs" by blast
  then have m: "map (\<lambda>k. idxmin (race_times (group_of dfb k))) (group_keys dfb) = map Inr idxs"
    by (simp add: best_indices_def all_or_error_Inr)
  have "\<exists>r'. loc df j = Inr r'" if "j \<in> set idxs" for j
  proof -
    from that have "Inr j \<in> set (map (\<lambda>k. idxmin (race_times (group_of dfb k))) (group_keys dfb))"
      unfolding m by simp
    then obtain k where "idxmin (race_times (group_of dfb k)) = Inr j" by auto
    from idxmin_Inr [OF this] obtain r0 where "r0 \<in> set dfb" "label r0 = j"
      by (auto simp: race_times_def group_of_def)
    with sub loc_some [of r0 df] show ?thesis by auto
  qed
  then have "\<exists>best_rows. all_or_error (map (loc df) idxs) = Inr best_rows"
    by (intro all_or_error_some) auto
  then obtain best_rows where "all_or_error (map (loc df) idxs) = Inr best_rows" by blast
  with ne col bi show ?thesis
    by (simp add: fetch_and_process_results_def Let_def df_def [symmetric] dfb_def [symmetric])
qed

lemma all_or_error_raises:
  "\<exists>x \<in> set xs. isl x \<Longrightarrow> \<forall>x \<in> set xs. isl x \<longrightarrow> x = Inl e \<Longrightarrow> all_or_error xs = Inl e"
proof (induction xs)
  case Nil
  then show ?case by simp
next
  case (Cons x xs)
  show ?case
  proof (cases x)
    case (Inl e')
    with Cons.prems(2) have "x = Inl e" by simp
    then show ?thesis by simp
  next
    case (Inr a)
    with Cons.prems have "\<exists>x \<in> set xs. isl x" "\<forall>x \<in> set xs. isl x \<longrightarrow> x = Inl e" by auto
    then have "all_or_error xs = Inl e" by (rule Cons.IH)
    with Inr show ?thesis by simp
  qed
qed

lemma fetch_best_result_all_unparseable:
  assumes col: "has_column col_distance rows"
    and ex: "\<exists>r \<in> set (build_frame td rows). normalized_distance r = PyStr cat"
    and na: "\<forall>r \<in> set (build_frame td rows). normalized_distance r = PyStr cat \<longrightarrow> race_time r = None"
  shows "fetch_best_result td (Table rows) f l cat = Inl ValueError"
proof -
  define df_cat where "df_cat = filter (\<lambda>r. normalized_distance r = PyStr cat) (build_frame td rows)"
  from ex have ne: "rows \<noteq> []" "df_cat \<noteq> []" by (auto simp: build_frame_def df_cat_def filter_empty_conv)
  from na have "\<forall>p \<in> set (race_times df_cat). snd p = None"
    by (auto simp: race_times_def df_cat_def)
  then have "idxmin (race_times df_cat) = Inl ValueError" by (rule idxmin_all_na)
  with col ne show ?thesis by (simp add: fetch_best_result_def Let_def df_cat_def [symmetric])
qed

lemma fetch_and_process_results_all_unparseable:
  assumes ne: "rows \<noteq> []" and col: "has_column col_distance rows"
    and r: "r \<in> set (df_for_best (sp_build_frame td rows))"
    and na: "\<forall>r' \<in> set (df_for_best (sp_build_frame td rows)).
        normalized_distance r' = normalized_distance r \<longrightarrow> race_time r' = None"
  shows "fetch_and_process_results td (Table rows) = Inl ValueError"
proof -
  define dfb where "dfb = df_for_best (sp_build_frame td rows)"
  from r obtain k where k: "normalized_distance r = PyStr k"
    by (cases "normalized_distance r") (auto simp: df_for_best_def)
  with r have mem: "k \<in> set (group_keys dfb)" unfolding dfb_def group_keys_mem by blast
  from na k have "\<forall>p \<in> set (race_times (group_of dfb k)). snd p = None"
    by (auto simp: race_times_def group_of_def dfb_def)
  then have "idxmin (race_times (group_of dfb k)) = Inl ValueError" by (rule idxmin_all_na)
  with mem have "\<exists>x \<in> set (map (\<lambda>k. idxmin (race_times (group_of dfb k))) (group_keys dfb)). isl x"
    by force
  moreover have "\<forall>x \<in> set (map (\<lambda>k. idxmin (race_times (group_of dfb k))) (group_keys dfb)).
      isl x \<longrightarrow> x = Inl ValueError"
  proof (intro ballI impI)
    fix x
    assume mem: "x \<in> set (map (\<lambda>k. idxmin (race_times (group_of dfb k))) (group_keys dfb))"
      and isl: "isl x"
    from mem obtain k' where xk: "x = idxmin (race_times (group_of dfb k'))" by auto
    from isl obtain e' where xe: "x = Inl e'" by (cases x) auto
    from xk xe have "idxmin (race_times (group_of dfb k')) = Inl e'" by simp
    from idxmin_Inl [OF this] xe show "x = Inl ValueError" by simp
  qed
  ultimately have "best_indices dfb = Inl ValueError"
    unfolding best_indices_def by (rule all_or_error_raises)
  with ne col show ?thesis
    by (simp add: fetch_and_process_results_def Let_def dfb_def [symmetric])
qed

section \<open>The example tables, evaluated\<close>

lemmas example_defs = result_row_def three_half_marathons_def three_distances_def
  unfinished_10K_def unrecorded_and_10K_def unknown_distance_def names_ABC_def

lemmas eval_defs = has_column_def race_times_def idxmin_def loc_def row_get_def null_times_def
  strip_def isspace_def clock_timedelta_def two_digits_def digits_value_def
  best_result_marker_def Let_def enumerate_eq_zip col_defs literal_defs example_defs

lemmas fetch_best_result_eval = fetch_best_result_def build_frame_def tag_best_def
  choose_best_time_string_def normalize_distance_def eval_defs

lemmas fetch_and_process_results_eval = fetch_and_process_results_def sp_build_frame_def
  parse_time_def sp_normalize_distance_def df_for_best_def group_keys_def group_of_def
  best_indices_def order_best_rows_def order_key_def order_list_def mark_best_def eval_defs

lemma half_marathons_fetch_best_result:
  "map_sum id (map_option (\<lambda>b. (normalized_distance b, race_time b, cells b col_note)))
     (fetch_best_result clock_timedelta (Table three_half_marathons) f l (ascii ''21K''))
     = Inr (Some (PyStr (ascii ''21K''), Some 6000, Some best_result_marker))"
  by (simp add: fetch_best_result_eval)

lemma half_marathons_single_person:
  "map_sum id (map (\<lambda>b. (normalized_distance b, race_time b, cells b col_note)) \<circ> fst)
     (fetch_and_process_results clock_timedelta (Table three_half_marathons))
     = Inr [(PyStr (ascii ''21K''), Some 6000, Some best_result_marker)]"
  by (simp add: fetch_and_process_results_eval)

lemma three_distances_single_person:
  "map_sum id (map normalized_distance \<circ> fst)
     (fetch_and_process_results clock_timedelta (Table three_distances))
     = Inr [PyStr (ascii ''42K''), PyStr (ascii ''10K''), PyStr (ascii ''5K'')]"
  by (simp add: fetch_and_process_results_eval)

lemma unfinished_single_person:
  "fetch_and_process_results clock_timedelta (Table unfinished_10K) = Inl ValueError"
  by (simp add: fetch_and_process_results_eval)

lemma unfinished_fetch_best_result:
  "fetch_best_result clock_timedelta (Table unfinished_10K) f l (ascii ''10K'') = Inl ValueError"
  by (simp add: fetch_best_result_eval)

lemma unknown_distance_single_person:
  "map_sum id fst (fetch_and_process_results clock_timedelta (Table unknown_distance)) = Inr []"
  by (simp add: fetch_and_process_results_eval)

lemma names_ABC_aggregate:
  "map_sum id (map_option (map (\<lambda>r. (cells r col_first_name, race_time r))))
     (best_results_for_category clock_timedelta names_ABC (ascii ''10K''))
     = Inr (Some [(Some (ascii ''C''), Some 5100), (Some (ascii ''A''), Some 5400)])"
  by (simp add: best_results_for_category_def reset_index_def sort_by_race_time_def
      duration_key_def fetch_best_result_eval)

lemma half_marathons_have_times:
  "\<forall>r \<in> set (df_for_best (sp_build_frame clock_timedelta three_half_marathons)).
     \<exists>r' \<in> set (df_for_best (sp_build_frame clock_timedelta three_half_marathons)).
       normalized_distance r' = normalized_distance r \<and> race_time r' \<noteq> None"
  "\<exists>r \<in> set (build_frame clock_timedelta three_half_marathons).
     normalized_distance r = PyStr (ascii ''21K'') \<and> race_time r \<noteq> None"
  "three_half_marathons \<noteq> []" "has_column col_distance three_half_marathons"
  by (simp_all add: fetch_and_process_results_eval fetch_best_result_eval)

section \<open>Facts about the collected rows\<close>

lemma build_frame_row:
  assumes "r' \<in> set (build_frame td rows)"
  shows "\<exists>r \<in> set rows.
           normalized_distance r' = normalize_distance (PyStr (row_get r col_distance [])) \<and>
           cells r' col_best_time = Some (choose_best_time_string r) \<and>
           race_time r' = td (choose_best_time_string r)"
proof -
  from assms obtain i r where "(i, r) \<in> set (enumerate 0 rows)"
    and r': "r' = \<lparr>label = i, cells = r(col_best_time \<mapsto> choose_best_time_string r),
            normalized_distance = normalize_distance (PyStr (row_get r col_distance [])),
            race_time = td (choose_best_time_string r)\<rparr>"
    by (auto simp: build_frame_def)
  then have "r \<in> set rows" by (auto simp: in_set_enumerate_eq)
  with r' show ?thesis by auto
qed

lemma no_rows_for_category:
  assumes "has_column col_distance rows"
    and "\<forall>r \<in> set rows. normalize_distance (PyStr (row_get r col_distance [])) \<noteq> PyStr cat"
  shows "fetch_best_result td (Table rows) f l cat = Inr None"
proof -
  have "filter (\<lambda>r. normalized_distance r = PyStr cat) (build_frame td rows) = []"
    using assms(2) by (auto simp: filter_empty_conv dest!: build_frame_row)
  with assms(1) show ?thesis by (simp add: fetch_best_result_def Let_def)
qed

lemma collect_best_skip:
  assumes "fetch_best_result td page f l cat = Inr None"
  shows "collect_best td (before @ ((f, l), page) # after) cat = collect_best td (before @ after) cat"
proof (induction before)
  case Nil
  from assms show ?case by simp
next
  case (Cons x before)
  obtain f' l' page' where x: "x = ((f', l'), page')" by (cases x) auto
  show ?case by (simp only: x append_Cons collect_best.simps Cons.IH)
qed

lemma tag_best_fields:
  "cells (tag_best f l r) col_best_time = cells r col_best_time"
  "cells (tag_best f l r) col_note = Some best_result_marker"
  "cells (tag_best f l r) col_first_name = Some f"
  "cells (tag_best f l r) col_last_name = Some l"
  "race_time (tag_best f l r) = race_time r"
  "normalized_distance (tag_best f l r) = normalized_distance r"
  by (simp_all add: tag_best_def col_defs)

lemma fetch_best_result_parseable:
  assumes "fetch_best_result td page f l cat = Inr (Some b)"
  shows "\<exists>t d. cells b col_best_time = Some t \<and> td t = Some d \<and> race_time b = Some d"
proof -
  from fetch_best_result_Some [OF assms] obtain rows r d where
    r: "r \<in> set (build_frame td rows)" "b = tag_best f l r" "race_time r = Some d" by blast
  from build_frame_row [OF r(1)] r(2,3) show ?thesis by (auto simp: tag_best_fields)
qed

lemma collect_best_parseable:
  "collect_best td names cat = Inr rows \<Longrightarrow> b \<in> set rows \<Longrightarrow>
     \<exists>t d. cells b col_best_time = Some t \<and> td t = Some d \<and> race_time b = Some d"
proof (induction td names cat arbitrary: rows rule: collect_best.induct)
  case (1 td category)
  then show ?case by simp
next
  case (2 td first_name last_name page rest category)
  show ?case
  proof (cases "fetch_best_result td page first_name last_name category")
    case (Inl e)
    with "2.prems" show ?thesis by simp
  next
    case (Inr res)
    show ?thesis
    proof (cases res)
      case None
      with Inr "2.prems" "2.IH"(1) show ?thesis by simp
    next
      case (Some best_row)
      with Inr "2.prems" obtain best_results where
        c: "collect_best td rest category = Inr best_results" and rows: "rows = best_row # best_results"
        by (auto split: sum.splits)
      from "2.prems"(2) rows consider "b = best_row" | "b \<in> set best_results" by auto
      then show ?thesis
      proof cases
        case 1
        with Inr Some fetch_best_result_parseable show ?thesis by blast
      next
        case 2
        with "2.IH"(2) [OF Inr Some c] show ?thesis by blast
      qed
    qed
  qed
qed

lemma reset_index_rows:
  assumes "r' \<in> set (reset_index td rows)"
  shows "\<exists>r \<in> set rows. cells r' = cells r \<and>
           race_time r' = (case cells r col_best_time of None \<Rightarrow> None | Some t \<Rightarrow> td t)"
proof -
  from assms obtain i r where "(i, r) \<in> set (enumerate 0 rows)"
    and r': "r' = r\<lparr>label := i,
             race_time := (case cells r col_best_time of None \<Rightarrow> None | Some t \<Rightarrow> td t)\<rparr>"
    by (auto simp: reset_index_def)
  then have "r \<in> set rows" by (auto simp: in_set_enumerate_eq)
  with r' show ?thesis by auto
qed

lemma sort_by_race_time_parseable:
  assumes "\<forall>r \<in> set df. race_time r \<noteq> None"
  shows "sort_by_race_time df = sort_key duration_key df"
proof -
  from assms have "filter (\<lambda>r. race_time r \<noteq> None) df = df" "filter (\<lambda>r. race_time r = None) df = []"
    by (simp_all add: filter_empty_conv)
  then show ?thesis by (simp add: sort_by_race_time_def)
qed

lemma best_results_for_category_sorted:
  assumes "best_results_for_category td names cat = Inr (Some out)"
  shows "sorted (map duration_key out) \<and> (\<forall>r \<in> set out. race_time r = Some (duration_key r)) \<and>
         (\<exists>rows. collect_best td names cat = Inr rows \<and> length out = length rows \<and>
            cells ` set out = cells ` set rows)"
proof -
  from assms obtain rows where c: "collect_best td names cat = Inr rows"
    and out: "out = sort_by_race_time (reset_index td rows)"
    by (auto simp: best_results_for_category_def split: sum.splits if_splits)
  have p: "race_time r' \<noteq> None" if "r' \<in> set (reset_index td rows)" for r'
  proof -
    from reset_index_rows [OF that] obtain r where r: "r \<in> set rows"
      "race_time r' = (case cells r col_best_time of None \<Rightarrow> None | Some t \<Rightarrow> td t)" by blast
    from collect_best_parseable [OF c r(1)] r(2) show ?thesis by auto
  qed
  then have s: "out = sort_key duration_key (reset_index td rows)"
    unfolding out by (intro sort_by_race_time_parseable) blast
  have "sorted (map duration_key out)" unfolding s by (rule sorted_sort_key)
  moreover have "race_time r = Some (duration_key r)" if "r \<in> set out" for r
    using p [of r] that by (auto simp: s duration_key_def)
  moreover have "length out = length rows" by (simp add: s reset_index_def)
  moreover have "cells ` set out = cells ` set rows"
  proof -
    have "map cells (reset_index td rows) = map snd (enumerate 0 (map cells rows))"
      by (simp add: reset_index_def enumerate_eq_zip zip_map2 case_prod_beta comp_def)
    then have "map cells (reset_index td rows) = map cells rows" by (simp add: enumerate_eq_zip)
    then have "cells ` set (reset_index td rows) = cells ` set rows" by (metis set_map)
    then show ?thesis by (simp add: s)
  qed
  ultimately show ?thesis using c by blast
qed

section \<open>The two time resolvers\<close>

lemma unrecorded_single_person:
  "map_sum id (map (\<lambda>b. (normalized_distance b, race_time b, cells b col_note)) \<circ> fst)
     (fetch_and_process_results clock_timedelta (Table unrecorded_and_10K))
     = Inr [(PyStr (ascii ''10K''), Some 0, Some best_result_marker)]"
  by (simp add: fetch_and_process_results_eval)

lemma unrecorded_fetch_best_result:
  "map_sum id (map_option (\<lambda>b. (normalized_distance b, race_time b, cells b col_note)))
     (fetch_best_result clock_timedelta (Table unrecorded_and_10K) f l (ascii ''10K''))
     = Inr (Some (PyStr (ascii ''10K''), Some 3000, Some best_result_marker))"
  by (simp add: fetch_best_result_eval)

text \<open>
  C2. On rows whose two time cells are trimmed text, as every scraped cell is,
  \<open>choose_best_time_string\<close> returns the personal-time field when it is present and none
  of the null-time sentinels 00:00:00, 0, the empty string, NaT and None; otherwise the
  result field under the same exclusion; and the empty string when both are excluded or
  absent. The resolver of the single-person module, \<open>parse_time\<close>, does not: it knows
  only the sentinels 00:00:00, 0 and the empty string and applies no exclusion to the
  result field. For 00:00:00 in both columns it hands 00:00:00 to the parser, and for
  the personal time NaT it hands NaT to the parser although the result field holds a
  time. In the table with an unrecorded 10 km race and one in 0:50:00 the single-person
  selection marks the unrecorded race, with duration 0, as the best result, where
  \<open>fetch_best_result\<close> picks the race in 0:50:00 (3000 seconds).
\<close>

theorem time_resolver_exclusion:
  "((\<forall>v. r col_personal_time = Some v \<longrightarrow> strip v = v) \<and>
    (\<forall>v. r col_result = Some v \<longrightarrow> strip v = v) \<longrightarrow>
      (\<forall>p. r col_personal_time = Some p \<and> p \<notin> set null_times \<longrightarrow>
         choose_best_time_string r = p) \<and>
      (\<forall>q. (r col_personal_time = None \<or>
            (\<exists>p. r col_personal_time = Some p \<and> p \<in> set null_times)) \<and>
           r col_result = Some q \<and> q \<notin> set null_times \<longrightarrow>
         choose_best_time_string r = q) \<and>
      ((r col_personal_time = None \<or>
        (\<exists>p. r col_personal_time = Some p \<and> p \<in> set null_times)) \<and>
       (r col_result = None \<or> (\<exists>q. r col_result = Some q \<and> q \<in> set null_times)) \<longrightarrow>
         choose_best_time_string r = [])) \<and>
   set null_times = {ascii ''00:00:00'', ascii ''0'', [], ascii ''NaT'', ascii ''None''} \<and>
   parse_time td (result_row d ''00:00:00'' ''00:00:00'') = td (ascii ''00:00:00'') \<and>
   choose_best_time_string (result_row d ''00:00:00'' ''00:00:00'') = [] \<and>
   parse_time td (result_row d ''NaT'' ''00:41:00'') = td (ascii ''NaT'') \<and>
   choose_best_time_string (result_row d ''NaT'' ''00:41:00'') = ascii ''00:41:00'' \<and>
   clock_timedelta (ascii ''00:00:00'') = Some 0 \<and>
   map_sum id (map (\<lambda>b. (normalized_distance b, race_time b, cells b col_note)) \<circ> fst)
     (fetch_and_process_results clock_timedelta (Table unrecorded_and_10K))
     = Inr [(PyStr (ascii ''10K''), Some 0, Some best_result_marker)] \<and>
   map_sum id (map_option (\<lambda>b. (normalized_distance b, race_time b, cells b col_note)))
     (fetch_best_result clock_timedelta (Table unrecorded_and_10K) f l (ascii ''10K''))
     = Inr (Some (PyStr (ascii ''10K''), Some 3000, Some best_result_marker))"
proof -
  have main: "(\<forall>v. r col_personal_time = Some v \<longrightarrow> strip v = v) \<and>
    (\<forall>v. r col_result = Some v \<longrightarrow> strip v = v) \<longrightarrow>
      (\<forall>p. r col_personal_time = Some p \<and> p \<notin> set null_times \<longrightarrow>
         choose_best_time_string r = p) \<and>
      (\<forall>q. (r col_personal_time = None \<or>
            (\<exists>p. r col_personal_time = Some p \<and> p \<in> set null_times)) \<and>
           r col_result = Some q \<and> q \<notin> set null_times \<longrightarrow>
         choose_best_time_string r = q) \<and>
      ((r col_personal_time = None \<or>
        (\<exists>p. r col_personal_time = Some p \<and> p \<in> set null_times)) \<and>
       (r col_result = None \<or> (\<exists>q. r col_result = Some q \<and> q \<in> set null_times)) \<longrightarrow>
         choose_best_time_string r = [])"
  proof (intro impI, elim conjE)
    assume tp: "\<forall>v. r col_personal_time = Some v \<longrightarrow> strip v = v"
      and tq: "\<forall>v. r col_result = Some v \<longrightarrow> strip v = v"
    have e: "[] \<in> set null_times" by (simp add: null_times_def)
    have P: "strip (row_get r col_personal_time []) = row_get r col_personal_time []"
      using tp by (cases "r col_personal_time") (simp_all add: row_get_def strip_Nil)
    have Q: "strip (row_get r col_result []) = row_get r col_result []"
      using tq by (cases "r col_result") (simp_all add: row_get_def strip_Nil)
    have c: "choose_best_time_string r =
      (if row_get r col_personal_time [] \<notin> set null_times then row_get r col_personal_time []
       else if row_get r col_result [] \<notin> set null_times then row_get r col_result [] else [])"
      by (simp add: choose_best_time_string_trimmed P Q)
    show "(\<forall>p. r col_personal_time = Some p \<and> p \<notin> set null_times \<longrightarrow>
         choose_best_time_string r = p) \<and>
      (\<forall>q. (r col_personal_time = None \<or>
            (\<exists>p. r col_personal_time = Some p \<and> p \<in> set null_times)) \<and>
           r col_result = Some q \<and> q \<notin> set null_times \<longrightarrow>
         choose_best_time_string r = q) \<and>
      ((r col_personal_time = None \<or>
        (\<exists>p. r col_personal_time = Some p \<and> p \<in> set null_times)) \<and>
       (r col_result = None \<or> (\<exists>q. r col_result = Some q \<and> q \<in> set null_times)) \<longrightarrow>
         choose_best_time_string r = [])"
      unfolding c using e by (auto simp: row_get_def)
  qed
  have sentinels: "set null_times = {ascii ''00:00:00'', ascii ''0'', [], ascii ''NaT'', ascii ''None''}"
    by (simp add: null_times_def)
  have sibling: "parse_time td (result_row d ''00:00:00'' ''00:00:00'') = td (ascii ''00:00:00'')"
    "choose_best_time_string (result_row d ''00:00:00'' ''00:00:00'') = []"
    "parse_time td (result_row d ''NaT'' ''00:41:00'') = td (ascii ''NaT'')"
    "choose_best_time_string (result_row d ''NaT'' ''00:41:00'') = ascii ''00:41:00''"
    "clock_timedelta (ascii ''00:00:00'') = Some 0"
    by (simp_all add: parse_time_def choose_best_time_string_def eval_defs)
  show ?thesis
    by (intro conjI main sentinels sibling unrecorded_single_person unrecorded_fetch_best_result)
qed

theorem time_resolver_exclusion_witness:
  "result_row [] ''00:40:00'' ''00:41:00'' col_personal_time = Some (ascii ''00:40:00'') \<and>
   strip (ascii ''00:40:00'') = ascii ''00:40:00'' \<and>
   strip (ascii ''00:41:00'') = ascii ''00:41:00'' \<and>
   ascii ''00:40:00'' \<notin> set null_times \<and>
   choose_best_time_string (result_row [] ''00:40:00'' ''00:41:00'') = ascii ''00:40:00'' \<and>
   result_row [] ''00:00:00'' ''00:41:00'' col_personal_time = Some (ascii ''00:00:00'') \<and>
   ascii ''00:00:00'' \<in> set null_times \<and>
   result_row [] ''00:00:00'' ''00:41:00'' col_result = Some (ascii ''00:41:00'') \<and>
   ascii ''00:41:00'' \<notin> set null_times \<and>
   choose_best_time_string (result_row [] ''00:00:00'' ''00:41:00'') = ascii ''00:41:00'' \<and>
   (Map.empty :: row) col_personal_time = None \<and> (Map.empty :: row) col_result = None \<and>
   choose_best_time_string Map.empty = []"
proof -
  let ?r1 = "result_row [] ''00:40:00'' ''00:41:00''"
  let ?r2 = "result_row [] ''00:00:00'' ''00:41:00''"
  have s: "strip (ascii ''00:40:00'') = ascii ''00:40:00''"
    "strip (ascii ''00:41:00'') = ascii ''00:41:00''"
    "strip (ascii ''00:00:00'') = ascii ''00:00:00''"
    by (simp_all add: ascii_def strip_def isspace_def)
  have c1: "?r1 col_personal_time = Some (ascii ''00:40:00'')"
    "?r1 col_result = Some (ascii ''00:41:00'')"
    and c2: "?r2 col_personal_time = Some (ascii ''00:00:00'')"
    "?r2 col_result = Some (ascii ''00:41:00'')"
    by (simp_all add: result_row_def col_defs)
  have n: "ascii ''00:40:00'' \<notin> set null_times" "ascii ''00:00:00'' \<in> set null_times"
    "ascii ''00:41:00'' \<notin> set null_times"
    by (simp_all add: null_times_def ascii_def)
  have t1: "(\<forall>v. ?r1 col_personal_time = Some v \<longrightarrow> strip v = v) \<and>
    (\<forall>v. ?r1 col_result = Some v \<longrightarrow> strip v = v)"
    using s by (simp add: c1)
  have t2: "(\<forall>v. ?r2 col_personal_time = Some v \<longrightarrow> strip v = v) \<and>
    (\<forall>v. ?r2 col_result = Some v \<longrightarrow> strip v = v)"
    using s by (simp add: c2)
  have t3: "(\<forall>v. (Map.empty :: row) col_personal_time = Some v \<longrightarrow> strip v = v) \<and>
    (\<forall>v. (Map.empty :: row) col_result = Some v \<longrightarrow> strip v = v)"
    by simp
  note a1 = time_resolver_exclusion [of ?r1, THEN conjunct1, THEN mp, OF t1]
  note a2 = time_resolver_exclusion [of ?r2, THEN conjunct1, THEN mp, OF t2]
  note a3 = time_resolver_exclusion [of Map.empty, THEN conjunct1, THEN mp, OF t3]
  have r1: "choose_best_time_string ?r1 = ascii ''00:40:00''"
    using c1(1) n(1) by (intro a1 [THEN conjunct1, rule_format] conjI)
  have r2: "choose_best_time_string ?r2 = ascii ''00:41:00''"
    using a2 [THEN conjunct2, THEN conjunct1, rule_format, of "ascii ''00:41:00''"] c2 n
    by blast
  have r3: "choose_best_time_string Map.empty = []"
    using a3 [THEN conjunct2, THEN conjunct2] by simp
  from s(1,2) c1(1) n(1) r1 c2(1) n(2) c2(2) n(3) r2 r3 show ?thesis by simp
qed

section \<open>Best results of one participant\<close>

text \<open>
  C1. When the single-person selection returns, its best rows have pairwise different
  categories, each carries the note "Best Result", and each has a parsed duration that
  is at most the duration of every row of the frame in the same category whose time
  parsed. When \<open>fetch_best_result\<close> returns a row, the row carries the note, is in
  the requested category and has a parsed duration that is at most that of every row of
  the category whose time parsed. Both do return when the table has the category column
  and every category in question has a row whose time parsed. For the three half
  marathons in 1:45:00, 1:50:00 and 1:40:00 both produce exactly one 21K best row, with
  duration 1:40:00 (6000 seconds).
\<close>

theorem best_selection_minimal:
  "(fetch_and_process_results td page = Inr (best, df) \<longrightarrow>
      distinct (map normalized_distance best) \<and>
      (\<forall>b \<in> set best.
         cells b col_note = Some best_result_marker \<and>
         (\<exists>d. race_time b = Some d \<and>
            (\<forall>r \<in> set df. normalized_distance r = normalized_distance b \<longrightarrow>
               (\<forall>d'. race_time r = Some d' \<longrightarrow> d \<le> d'))))) \<and>
   (fetch_best_result td page f l cat = Inr (Some b) \<longrightarrow>
      cells b col_note = Some best_result_marker \<and> normalized_distance b = PyStr cat \<and>
      (\<exists>rows d. page = Table rows \<and> race_time b = Some d \<and>
         (\<forall>r \<in> set (build_frame td rows). normalized_distance r = PyStr cat \<longrightarrow>
            (\<forall>d'. race_time r = Some d' \<longrightarrow> d \<le> d')))) \<and>
   (rows \<noteq> [] \<and> has_column col_distance rows \<and>
    (\<forall>r \<in> set (df_for_best (sp_build_frame td rows)).
       \<exists>r' \<in> set (df_for_best (sp_build_frame td rows)).
         normalized_distance r' = normalized_distance r \<and> race_time r' \<noteq> None) \<longrightarrow>
      (\<exists>best. fetch_and_process_results td (Table rows) = Inr (best, sp_build_frame td rows))) \<and>
   (has_column col_distance rows \<and>
    (\<exists>r \<in> set (build_frame td rows). normalized_distance r = PyStr cat \<and> race_time r \<noteq> None) \<longrightarrow>
      (\<exists>b. fetch_best_result td (Table rows) f l cat = Inr (Some b))) \<and>
   map clock_timedelta [ascii ''1:45:00'', ascii ''1:50:00'', ascii ''1:40:00'']
     = [Some 6300, Some 6600, Some 6000] \<and>
   map_sum id (map (\<lambda>b. (normalized_distance b, race_time b, cells b col_note)) \<circ> fst)
     (fetch_and_process_results clock_timedelta (Table three_half_marathons))
     = Inr [(PyStr (ascii ''21K''), Some 6000, Some best_result_marker)] \<and>
   map_sum id (map_option (\<lambda>b. (normalized_distance b, race_time b, cells b col_note)))
     (fetch_best_result clock_timedelta (Table three_half_marathons) f l (ascii ''21K''))
     = Inr (Some (PyStr (ascii ''21K''), Some 6000, Some best_result_marker))"
proof -
  have single: "fetch_and_process_results td page = Inr (best, df) \<longrightarrow>
      distinct (map normalized_distance best) \<and>
      (\<forall>b \<in> set best.
         cells b col_note = Some best_result_marker \<and>
         (\<exists>d. race_time b = Some d \<and>
            (\<forall>r \<in> set df. normalized_distance r = normalized_distance b \<longrightarrow>
               (\<forall>d'. race_time r = Some d' \<longrightarrow> d \<le> d'))))"
  proof (rule impI)
    assume "fetch_and_process_results td page = Inr (best, df)"
    from fetch_and_process_results_Inr(1,2) [OF this]
    show "distinct (map normalized_distance best) \<and>
      (\<forall>b \<in> set best.
         cells b col_note = Some best_result_marker \<and>
         (\<exists>d. race_time b = Some d \<and>
            (\<forall>r \<in> set df. normalized_distance r = normalized_distance b \<longrightarrow>
               (\<forall>d'. race_time r = Some d' \<longrightarrow> d \<le> d'))))"
      by blast
  qed
  have one: "fetch_best_result td page f l cat = Inr (Some b) \<longrightarrow>
      cells b col_note = Some best_result_marker \<and> normalized_distance b = PyStr cat \<and>
      (\<exists>rows d. page = Table rows \<and> race_time b = Some d \<and>
         (\<forall>r \<in> set (build_frame td rows). normalized_distance r = PyStr cat \<longrightarrow>
            (\<forall>d'. race_time r = Some d' \<longrightarrow> d \<le> d')))"
  proof (rule impI)
    assume "fetch_best_result td page f l cat = Inr (Some b)"
    from fetch_best_result_Some [OF this]
    show "cells b col_note = Some best_result_marker \<and> normalized_distance b = PyStr cat \<and>
      (\<exists>rows d. page = Table rows \<and> race_time b = Some d \<and>
         (\<forall>r \<in> set (build_frame td rows). normalized_distance r = PyStr cat \<longrightarrow>
            (\<forall>d'. race_time r = Some d' \<longrightarrow> d \<le> d')))"
      by (auto simp: tag_best_fields)
  qed
  have single_returns: "rows \<noteq> [] \<and> has_column col_distance rows \<and>
    (\<forall>r \<in> set (df_for_best (sp_build_frame td rows)).
       \<exists>r' \<in> set (df_for_best (sp_build_frame td rows)).
         normalized_distance r' = normalized_distance r \<and> race_time r' \<noteq> None) \<longrightarrow>
      (\<exists>best. fetch_and_process_results td (Table rows) = Inr (best, sp_build_frame td rows))"
  proof (rule impI, elim conjE)
    assume "rows \<noteq> []" and "has_column col_distance rows"
      and "\<forall>r \<in> set (df_for_best (sp_build_frame td rows)).
       \<exists>r' \<in> set (df_for_best (sp_build_frame td rows)).
         normalized_distance r' = normalized_distance r \<and> race_time r' \<noteq> None"
    then show "\<exists>best. fetch_and_process_results td (Table rows) = Inr (best, sp_build_frame td rows)"
      by (rule fetch_and_process_results_returns)
  qed
  have one_returns: "has_column col_distance rows \<and>
    (\<exists>r \<in> set (build_frame td rows). normalized_distance r = PyStr cat \<and> race_time r \<noteq> None) \<longrightarrow>
      (\<exists>b. fetch_best_result td (Table rows) f l cat = Inr (Some b))"
  proof (rule impI, elim conjE)
    assume "has_column col_distance rows"
      and "\<exists>r \<in> set (build_frame td rows). normalized_distance r = PyStr cat \<and> race_time r \<noteq> None"
    then show "\<exists>b. fetch_best_result td (Table rows) f l cat = Inr (Some b)"
      by (rule fetch_best_result_returns)
  qed
  have clock: "map clock_timedelta [ascii ''1:45:00'', ascii ''1:50:00'', ascii ''1:40:00'']
     = [Some 6300, Some 6600, Some 6000]"
    by (simp add: clock_timedelta_def two_digits_def digits_value_def ascii_def)
  show ?thesis
    by (intro conjI single one single_returns one_returns clock half_marathons_single_person
        half_marathons_fetch_best_result)
qed

theorem best_selection_minimal_witness:
  "\<exists>best b. fetch_and_process_results clock_timedelta (Table three_half_marathons)
       = Inr (best, sp_build_frame clock_timedelta three_half_marathons) \<and>
     length best = 1 \<and> distinct (map normalized_distance best) \<and>
     cells (hd best) col_note = Some best_result_marker \<and>
     race_time (hd best) = Some 6000 \<and>
     fetch_best_result clock_timedelta (Table three_half_marathons) (ascii ''A'') (ascii ''X'')
       (ascii ''21K'') = Inr (Some b) \<and>
     cells b col_note = Some best_result_marker \<and> normalized_distance b = PyStr (ascii ''21K'')"
proof -
  let ?sp = "fetch_and_process_results clock_timedelta (Table three_half_marathons)"
  let ?fb = "fetch_best_result clock_timedelta (Table three_half_marathons) (ascii ''A'')
     (ascii ''X'') (ascii ''21K'')"
  note times = half_marathons_have_times
  have "\<exists>best. ?sp = Inr (best, sp_build_frame clock_timedelta three_half_marathons)"
    using times(3,4,1)
    by (intro best_selection_minimal [where td = clock_timedelta and rows = three_half_marathons,
          THEN conjunct2, THEN conjunct2, THEN conjunct1, THEN mp] conjI)
  then obtain best where
    sp: "?sp = Inr (best, sp_build_frame clock_timedelta three_half_marathons)" by blast
  have "\<exists>b. ?fb = Inr (Some b)"
    using times(4,2)
    by (intro best_selection_minimal [where td = clock_timedelta and rows = three_half_marathons
            and cat = "ascii ''21K''",
          THEN conjunct2, THEN conjunct2, THEN conjunct2, THEN conjunct1, THEN mp] conjI)
  then obtain b where fb: "?fb = Inr (Some b)" by blast
  from half_marathons_single_person sp have best: "length best = 1"
    "race_time (hd best) = Some 6000"
    by auto
  then have mem: "hd best \<in> set best" by (cases best) auto
  have "distinct (map normalized_distance best) \<and>
      (\<forall>b \<in> set best.
         cells b col_note = Some best_result_marker \<and>
         (\<exists>d. race_time b = Some d \<and>
            (\<forall>r \<in> set (sp_build_frame clock_timedelta three_half_marathons).
               normalized_distance r = normalized_distance b \<longrightarrow>
               (\<forall>d'. race_time r = Some d' \<longrightarrow> d \<le> d'))))"
    using sp
    by (rule best_selection_minimal [THEN conjunct1, THEN mp])
  with mem have single: "distinct (map normalized_distance best)"
    "cells (hd best) col_note = Some best_result_marker"
    by blast+
  have "cells b col_note = Some best_result_marker \<and> normalized_distance b = PyStr (ascii ''21K'') \<and>
      (\<exists>rows d. Table three_half_marathons = Table rows \<and> race_time b = Some d \<and>
         (\<forall>r \<in> set (build_frame clock_timedelta rows).
            normalized_distance r = PyStr (ascii ''21K'') \<longrightarrow>
            (\<forall>d'. race_time r = Some d' \<longrightarrow> d \<le> d')))"
    using fb
    by (rule best_selection_minimal [THEN conjunct2, THEN conjunct1, THEN mp])
  then have one: "cells b col_note = Some best_result_marker"
    "normalized_distance b = PyStr (ascii ''21K'')"
    by blast+
  from sp best single fb one show ?thesis
    by (intro exI [of _ best] exI [of _ b] conjI) assumption+
qed

text \<open>
  C7. The best rows of a single person come out sorted by the key of their category:
  42K, 21K, 15K, 10K, 5K have the keys 0 to 4 and everything else has the key 5, so a
  category outside the five comes after them. Ordering keeps the rows and only
  rearranges them. For best rows in the categories 5K, 42K and 10K the output order is
  42K, 10K, 5K.
\<close>

theorem best_rows_category_order:
  "map order_key [PyStr (ascii ''42K''), PyStr (ascii ''21K''), PyStr (ascii ''15K''),
     PyStr (ascii ''10K''), PyStr (ascii ''5K'')] = [0, 1, 2, 3, 4] \<and>
   (\<forall>x. x \<notin> PyStr ` set order_list \<longrightarrow> order_key x = 5) \<and>
   sorted (map (\<lambda>r. order_key (normalized_distance r)) (order_best_rows rows)) \<and>
   set (order_best_rows rows) = set rows \<and>
   length (order_best_rows rows) = length rows \<and>
   (fetch_and_process_results td page = Inr (best, df) \<longrightarrow>
      sorted (map (\<lambda>r. order_key (normalized_distance r)) best)) \<and>
   map_sum id (map normalized_distance \<circ> fst)
     (fetch_and_process_results clock_timedelta (Table three_distances))
     = Inr [PyStr (ascii ''42K''), PyStr (ascii ''10K''), PyStr (ascii ''5K'')]"
proof -
  have keys: "map order_key [PyStr (ascii ''42K''), PyStr (ascii ''21K''), PyStr (ascii ''15K''),
     PyStr (ascii ''10K''), PyStr (ascii ''5K'')] = [0, 1, 2, 3, 4]"
    by (simp add: order_key_def order_list_def ascii_def)
  have outside: "\<forall>x. x \<notin> PyStr ` set order_list \<longrightarrow> order_key x = 5"
  proof (intro allI impI)
    fix x
    assume "x \<notin> PyStr ` set order_list"
    then show "order_key x = 5" by (cases x) (auto simp: order_key_def order_list_def)
  qed
  have srt: "sorted (map (\<lambda>r. order_key (normalized_distance r)) (order_best_rows rows))"
    unfolding order_best_rows_def by (rule sorted_sort_key)
  have same: "set (order_best_rows rows) = set rows" "length (order_best_rows rows) = length rows"
    by (simp_all add: order_best_rows_def)
  have pipeline: "fetch_and_process_results td page = Inr (best, df) \<longrightarrow>
      sorted (map (\<lambda>r. order_key (normalized_distance r)) best)"
    by (rule impI) (rule fetch_and_process_results_Inr(3))
  show ?thesis
    by (intro conjI keys outside srt same pipeline three_distances_single_person)
qed

theorem best_rows_category_order_witness:
  "PyNaN \<notin> PyStr ` set order_list \<and> order_key PyNaN = 5 \<and>
   PyStr (ascii ''30K'') \<notin> PyStr ` set order_list \<and> order_key (PyStr (ascii ''30K'')) = 5 \<and>
   (\<exists>best df. fetch_and_process_results clock_timedelta (Table three_distances) = Inr (best, df) \<and>
      map normalized_distance best = [PyStr (ascii ''42K''), PyStr (ascii ''10K''), PyStr (ascii ''5K'')] \<and>
      sorted (map (\<lambda>r. order_key (normalized_distance r)) best))"
proof -
  let ?sp = "fetch_and_process_results clock_timedelta (Table three_distances)"
  have out: "PyNaN \<notin> PyStr ` set order_list" "PyStr (ascii ''30K'') \<notin> PyStr ` set order_list"
    by (auto simp: order_list_def ascii_def)
  obtain best df where sp: "?sp = Inr (best, df)"
    and cats: "map normalized_distance best =
      [PyStr (ascii ''42K''), PyStr (ascii ''10K''), PyStr (ascii ''5K'')]"
    using three_distances_single_person by (cases ?sp) auto
  note inst = best_rows_category_order [of best clock_timedelta "Table three_distances" best df]
  note outside = inst [THEN conjunct2, THEN conjunct1, rule_format]
  have k: "order_key PyNaN = 5" "order_key (PyStr (ascii ''30K'')) = 5"
    by (rule outside [OF out(1)]) (rule outside [OF out(2)])
  have "sorted (map (\<lambda>r. order_key (normalized_distance r)) best)"
    using sp
    by (rule inst [THEN conjunct2, THEN conjunct2, THEN conjunct2, THEN conjunct2, THEN conjunct2,
          THEN conjunct1, THEN mp])
  with out k sp cats show ?thesis by (intro conjI exI [of _ best] exI [of _ df]) assumption+
qed

text \<open>
  C8. What the code does for a participant without a parseable duration. When no row
  has a known category the single-person selection returns no best rows and
  \<open>fetch_best_result\<close> returns \<open>None\<close>. When the rows of a known category all have
  unparseable times, as for a single unfinished 10 km race, \<open>idxmin\<close> finds no
  minimum and both functions raise; \<open>best_results_for_category\<close> catches nothing and
  raises with them.
\<close>

theorem unparseable_category_raises:
  "fetch_and_process_results clock_timedelta (Table unfinished_10K) = Inl ValueError \<and>
   fetch_best_result clock_timedelta (Table unfinished_10K) f l (ascii ''10K'') = Inl ValueError \<and>
   best_results_for_category clock_timedelta [((f, l), Table unfinished_10K)] (ascii ''10K'')
     = Inl ValueError \<and>
   map_sum id fst (fetch_and_process_results clock_timedelta (Table unknown_distance)) = Inr [] \<and>
   fetch_best_result clock_timedelta (Table unknown_distance) f l (ascii ''10K'') = Inr None"
proof -
  have "best_results_for_category clock_timedelta [((f, l), Table unfinished_10K)] (ascii ''10K'')
     = Inl ValueError"
    by (simp add: best_results_for_category_def unfinished_fetch_best_result)
  moreover have "fetch_best_result clock_timedelta (Table unknown_distance) f l (ascii ''10K'') = Inr None"
    by (simp add: fetch_best_result_eval)
  ultimately show ?thesis
    by (intro conjI unfinished_single_person unfinished_fetch_best_result
        unknown_distance_single_person)
qed

section \<open>Best results across participants\<close>

text \<open>
  C3. A lookup that times out, whose request fails, whose page has no table, whose
  table has no rows or no row in the target category gives \<open>None\<close>, not an error. A
  participant whose lookup gives \<open>None\<close> is left out: the aggregate is the same as
  without that participant. The rows of the aggregate are the collected best rows,
  every one with a parsed duration, in ascending order of duration. For A (1:30:00),
  B (timeout) and C (1:25:00) over 10K the aggregate has exactly the two rows C, A.
\<close>

theorem lookup_failures_skipped:
  "fetch_best_result td Timeout f l cat = Inr None \<and>
   fetch_best_result td RequestFailed f l cat = Inr None \<and>
   fetch_best_result td NoTable f l cat = Inr None \<and>
   fetch_best_result td (Table []) f l cat = Inr None \<and>
   (has_column col_distance rows \<and>
    (\<forall>r \<in> set rows. normalize_distance (PyStr (row_get r col_distance [])) \<noteq> PyStr cat) \<longrightarrow>
      fetch_best_result td (Table rows) f l cat = Inr None) \<and>
   (fetch_best_result td page f l cat = Inr None \<longrightarrow>
      best_results_for_category td (before @ ((f, l), page) # after) cat =
      best_results_for_category td (before @ after) cat) \<and>
   (best_results_for_category td names cat = Inr (Some out) \<longrightarrow>
      sorted (map duration_key out) \<and> (\<forall>r \<in> set out. race_time r = Some (duration_key r)) \<and>
      (\<exists>collected. collect_best td names cat = Inr collected \<and> length out = length collected \<and>
         cells ` set out = cells ` set collected)) \<and>
   map_sum id (map_option (map (\<lambda>r. (cells r col_first_name, race_time r))))
     (best_results_for_category clock_timedelta names_ABC (ascii ''10K''))
     = Inr (Some [(Some (ascii ''C''), Some 5100), (Some (ascii ''A''), Some 5400)]) \<and>
   map clock_timedelta [ascii ''1:25:00'', ascii ''1:30:00''] = [Some 5100, Some 5400]"
proof -
  have fails: "fetch_best_result td Timeout f l cat = Inr None"
    "fetch_best_result td RequestFailed f l cat = Inr None"
    "fetch_best_result td NoTable f l cat = Inr None"
    "fetch_best_result td (Table []) f l cat = Inr None"
    by (simp_all add: fetch_best_result_def)
  have none: "has_column col_distance rows \<and>
    (\<forall>r \<in> set rows. normalize_distance (PyStr (row_get r col_distance [])) \<noteq> PyStr cat) \<longrightarrow>
      fetch_best_result td (Table rows) f l cat = Inr None"
  proof (rule impI, elim conjE)
    assume "has_column col_distance rows"
      and "\<forall>r \<in> set rows. normalize_distance (PyStr (row_get r col_distance [])) \<noteq> PyStr cat"
    then show "fetch_best_result td (Table rows) f l cat = Inr None"
      by (rule no_rows_for_category)
  qed
  have skip: "fetch_best_result td page f l cat = Inr None \<longrightarrow>
      best_results_for_category td (before @ ((f, l), page) # after) cat =
      best_results_for_category td (before @ after) cat"
  proof (rule impI)
    assume "fetch_best_result td page f l cat = Inr None"
    then show "best_results_for_category td (before @ ((f, l), page) # after) cat =
      best_results_for_category td (before @ after) cat"
      by (simp add: best_results_for_category_def collect_best_skip)
  qed
  have srt: "best_results_for_category td names cat = Inr (Some out) \<longrightarrow>
      sorted (map duration_key out) \<and> (\<forall>r \<in> set out. race_time r = Some (duration_key r)) \<and>
      (\<exists>collected. collect_best td names cat = Inr collected \<and> length out = length collected \<and>
         cells ` set out = cells ` set collected)"
    by (rule impI) (rule best_results_for_category_sorted)
  have clock: "map clock_timedelta [ascii ''1:25:00'', ascii ''1:30:00''] = [Some 5100, Some 5400]"
    by (simp add: clock_timedelta_def two_digits_def digits_value_def ascii_def)
  show ?thesis by (intro conjI fails none skip srt names_ABC_aggregate clock)
qed

theorem lookup_failures_skipped_witness:
  "fetch_best_result clock_timedelta Timeout (ascii ''B'') (ascii ''X'') (ascii ''10K'') = Inr None \<and>
   best_results_for_category clock_timedelta names_ABC (ascii ''10K'') =
     best_results_for_category clock_timedelta [names_ABC ! 0, names_ABC ! 2] (ascii ''10K'') \<and>
   (\<exists>out. best_results_for_category clock_timedelta names_ABC (ascii ''10K'') = Inr (Some out) \<and>
      length out = 2 \<and> sorted (map duration_key out) \<and>
      list_all (\<lambda>r. race_time r = Some (duration_key r)) out) \<and>
   has_column col_distance unknown_distance \<and>
   list_all (\<lambda>r. normalize_distance (PyStr (row_get r col_distance [])) \<noteq> PyStr (ascii ''10K''))
     unknown_distance \<and>
   fetch_best_result clock_timedelta (Table unknown_distance) (ascii ''B'') (ascii ''X'')
     (ascii ''10K'') = Inr None"
proof -
  let ?agg = "best_results_for_category clock_timedelta names_ABC (ascii ''10K'')"
  note inst = lookup_failures_skipped [where td = clock_timedelta and f = "ascii ''B''"
      and l = "ascii ''X''" and cat = "ascii ''10K''"]
  have t: "fetch_best_result clock_timedelta Timeout (ascii ''B'') (ascii ''X'') (ascii ''10K'')
      = Inr None"
    by (rule inst [THEN conjunct1])
  have names: "names_ABC = [names_ABC ! 0] @ ((ascii ''B'', ascii ''X''), Timeout) # [names_ABC ! 2]"
    by (simp add: names_ABC_def)
  have "best_results_for_category clock_timedelta
          ([names_ABC ! 0] @ ((ascii ''B'', ascii ''X''), Timeout) # [names_ABC ! 2]) (ascii ''10K'') =
        best_results_for_category clock_timedelta ([names_ABC ! 0] @ [names_ABC ! 2]) (ascii ''10K'')"
    using t
    by (rule inst [where page = Timeout and before = "[names_ABC ! 0]" and after = "[names_ABC ! 2]",
          THEN conjunct2, THEN conjunct2, THEN conjunct2, THEN conjunct2, THEN conjunct2,
          THEN conjunct1, THEN mp])
  then have skip: "?agg = best_results_for_category clock_timedelta [names_ABC ! 0, names_ABC ! 2]
      (ascii ''10K'')"
    using names by simp
  obtain out where out: "?agg = Inr (Some out)" and len: "length out = 2"
    using names_ABC_aggregate by (cases ?agg) auto
  have "sorted (map duration_key out) \<and> (\<forall>r \<in> set out. race_time r = Some (duration_key r)) \<and>
      (\<exists>collected. collect_best clock_timedelta names_ABC (ascii ''10K'') = Inr collected \<and>
         length out = length collected \<and> cells ` set out = cells ` set collected)"
    using out
    by (rule inst [where names = names_ABC and out = out,
          THEN conjunct2, THEN conjunct2, THEN conjunct2, THEN conjunct2, THEN conjunct2,
          THEN conjunct2, THEN conjunct1, THEN mp])
  then have srt: "sorted (map duration_key out)"
    "list_all (\<lambda>r. race_time r = Some (duration_key r)) out"
    by (simp_all add: list_all_iff)
  have u: "has_column col_distance unknown_distance"
    "list_all (\<lambda>r. normalize_distance (PyStr (row_get r col_distance [])) \<noteq> PyStr (ascii ''10K''))
       unknown_distance"
    by (simp_all add: fetch_best_result_eval)
  then have "has_column col_distance unknown_distance \<and>
    (\<forall>r \<in> set unknown_distance.
       normalize_distance (PyStr (row_get r col_distance [])) \<noteq> PyStr (ascii ''10K''))"
    by (simp add: list_all_iff)
  then have "fetch_best_result clock_timedelta (Table unknown_distance) (ascii ''B'') (ascii ''X'')
     (ascii ''10K'') = Inr None"
    by (rule inst [where rows = unknown_distance,
          THEN conjunct2, THEN conjunct2, THEN conjunct2, THEN conjunct2, THEN conjunct1, THEN mp])
  with t skip out len srt u show ?thesis by (intro conjI exI [of _ out]) assumption+
qed

section \<open>Birth years\<close>

text \<open>
  C9. What \<open>normalize_year\<close> does with text. A year in plain digits is parsed, text
  that is no number gives no year, and a date with two slashes gives its third part,
  two-digit values above 25 in the 1900s and the others in the 2000s. A text with a
  slash and fewer than three parts raises \<open>IndexError\<close>, and a date whose third part
  is no number raises \<open>ValueError\<close>: only the branch without a slash catches the
  parse error.
\<close>

theorem normalize_year_raises:
  "normalize_year to_int (YStr (ascii ''03/1990'')) = Inl IndexError \<and>
   normalize_year decimal_int (YStr (ascii ''15/03/abc'')) = Inl ValueError \<and>
   normalize_year decimal_int (YStr (ascii ''abc'')) = Inr None \<and>
   normalize_year decimal_int (YStr (ascii ''15/03/90'')) = Inr (Some 1990) \<and>
   normalize_year decimal_int (YStr (ascii ''15/03/20'')) = Inr (Some 2020) \<and>
   normalize_year decimal_int (YStr (ascii ''1990'')) = Inr (Some 1990) \<and>
   normalize_year to_int (YInt 1990) = Inr (Some 1990)"
  by (simp add: normalize_year_def decimal_int_def few_digits_def digits_value_def ascii_def strip_def
      isspace_def Let_def)

end
